theory Spec2Isabelle
  imports Main "HOL-Library.Sublist"
begin

section \<open>The image tool's Ui class (src/ui.ts) over a small DOM store\<close>

subsection \<open>Values, errors and the state enumeration\<close>

text \<open>The enum \<open>UiState\<close> and the string each member stands for.\<close>

datatype UiState = Empty | Uploading | Filled

fun UiState_value :: "UiState \<Rightarrow> string" where
  "UiState_value Empty = ''empty''"
| "UiState_value Uploading = ''uploading''"
| "UiState_value Filled = ''filled''"

text \<open>The keys of \<open>UiState\<close> in the order a \<open>for ... in\<close> loop visits them.\<close>

definition UiState_keys :: "UiState list" where
  "UiState_keys = [Empty, Uploading, Filled]"

text \<open>
  The JavaScript values the class handles: attribute values are strings or booleans, and a
  property that an object does not have reads as \<open>undefined\<close>.
\<close>

datatype js_value = Undefined | Str string | Bool bool

fun js_to_string :: "js_value \<Rightarrow> string" where
  "js_to_string Undefined = ''undefined''"
| "js_to_string (Str s) = s"
| "js_to_string (Bool b) = (if b then ''true'' else ''false'')"

text \<open>Exceptions that the DOM calls of the class can raise.\<close>

datatype dom_error =
  NotFoundError | HierarchyRequestError | InvalidCharacterError | SyntaxError | TypeError

text \<open>
  The two closures the class registers as event listeners: the click handler of the file
  button (\<open>createFileButton\<close>) and the readiness handler of a media element
  (\<open>fillImage\<close>).
\<close>

datatype listener = SelectFileClick | MediaReady

subsection \<open>Elements and the document store\<close>

type_synonym node_id = nat

record element =
  tagName :: string
  classList :: "string list"
  props :: "string \<rightharpoonup> js_value"
  style :: "string \<rightharpoonup> string"
  dataset :: "string \<rightharpoonup> string"
  innerHTML :: string
  children :: "node_id list"
  parent :: "node_id option"
  listeners :: "(string \<times> listener) list"

record document =
  heap :: "node_id \<rightharpoonup> element"
  next_id :: node_id

definition empty_document :: document where
  "empty_document = \<lparr>heap = Map.empty, next_id = 0\<rparr>"

definition new_element :: "string \<Rightarrow> element" where
  "new_element tag =
     \<lparr>tagName = tag, classList = [], props = Map.empty, style = Map.empty,
      dataset = Map.empty, innerHTML = [], children = [], parent = None, listeners = []\<rparr>"

definition createElement :: "string \<Rightarrow> document \<Rightarrow> node_id \<times> document" where
  "createElement tag d =
     (next_id d, d\<lparr>heap := (heap d)(next_id d \<mapsto> new_element tag), next_id := Suc (next_id d)\<rparr>)"

definition update_node :: "node_id \<Rightarrow> (element \<Rightarrow> element) \<Rightarrow> document \<Rightarrow> document" where
  "update_node n f d =
     (case heap d n of None \<Rightarrow> d | Some e \<Rightarrow> d\<lparr>heap := (heap d)(n \<mapsto> f e)\<rparr>)"

definition children_of :: "document \<Rightarrow> node_id \<Rightarrow> node_id list" where
  "children_of d n = (case heap d n of None \<Rightarrow> [] | Some e \<Rightarrow> children e)"

definition parent_of :: "document \<Rightarrow> node_id \<Rightarrow> node_id option" where
  "parent_of d n = (case heap d n of None \<Rightarrow> None | Some e \<Rightarrow> parent e)"

definition classList_of :: "document \<Rightarrow> node_id \<Rightarrow> string list" where
  "classList_of d n = (case heap d n of None \<Rightarrow> [] | Some e \<Rightarrow> classList e)"

definition listeners_of :: "document \<Rightarrow> node_id \<Rightarrow> (string \<times> listener) list" where
  "listeners_of d n = (case heap d n of None \<Rightarrow> [] | Some e \<Rightarrow> listeners e)"

definition style_of :: "document \<Rightarrow> node_id \<Rightarrow> string \<Rightarrow> string" where
  "style_of d n k =
     (case heap d n of None \<Rightarrow> [] | Some e \<Rightarrow> (case style e k of None \<Rightarrow> [] | Some v \<Rightarrow> v))"

definition prop_of :: "document \<Rightarrow> node_id \<Rightarrow> string \<Rightarrow> js_value" where
  "prop_of d n k =
     (case heap d n of None \<Rightarrow> Undefined
      | Some e \<Rightarrow> (case props e k of None \<Rightarrow> Undefined | Some v \<Rightarrow> v))"

text \<open>
  \<open>el.style.prop = v\<close>: an empty string removes the declaration, so that the property reads
  as the empty string afterwards.
\<close>

definition set_style :: "node_id \<Rightarrow> string \<Rightarrow> string \<Rightarrow> document \<Rightarrow> document" where
  "set_style n k v d =
     update_node n (\<lambda>e. e\<lparr>style := (if v = [] then (style e)(k := None) else (style e)(k \<mapsto> v))\<rparr>) d"

definition set_prop :: "node_id \<Rightarrow> string \<Rightarrow> js_value \<Rightarrow> document \<Rightarrow> document" where
  "set_prop n k v d = update_node n (\<lambda>e. e\<lparr>props := (props e)(k \<mapsto> v)\<rparr>) d"

definition set_innerHTML :: "node_id \<Rightarrow> string \<Rightarrow> document \<Rightarrow> document" where
  "set_innerHTML n html d = update_node n (\<lambda>e. e\<lparr>innerHTML := html\<rparr>) d"

definition addEventListener :: "node_id \<Rightarrow> string \<Rightarrow> listener \<Rightarrow> document \<Rightarrow> document" where
  "addEventListener n ev l d =
     update_node n (\<lambda>e. e\<lparr>listeners :=
        (if (ev, l) \<in> set (listeners e) then listeners e else listeners e @ [(ev, l)])\<rparr>) d"

subsection \<open>Class lists\<close>

text \<open>
  A \<open>DOMTokenList\<close> is an ordered set of tokens. \<open>toggle(token, force)\<close> adds the token at
  the end when \<open>force\<close> is true and the token is absent, removes it when \<open>force\<close> is false,
  and raises on an empty token or one that holds ASCII whitespace.
\<close>

definition ascii_whitespace :: "char \<Rightarrow> bool" where
  "ascii_whitespace c =
     (c = CHR 0x09 \<or> c = CHR 0x0A \<or> c = CHR 0x0C \<or> c = CHR 0x0D \<or> c = CHR 0x20)"

definition token_add :: "string \<Rightarrow> string list \<Rightarrow> string list" where
  "token_add t cl = (if t \<in> set cl then cl else cl @ [t])"

definition token_remove :: "string \<Rightarrow> string list \<Rightarrow> string list" where
  "token_remove t cl = removeAll t cl"

definition classList_toggle :: "string \<Rightarrow> bool \<Rightarrow> string list \<Rightarrow> dom_error + string list" where
  "classList_toggle t force cl =
     (if t = [] then Inl SyntaxError
      else if list_ex ascii_whitespace t then Inl InvalidCharacterError
      else Inr (if force then token_add t cl else token_remove t cl))"

subsection \<open>Tree mutation\<close>

text \<open>
  \<open>is_ancestor_within k d a n\<close>: node \<open>a\<close> is \<open>n\<close> or one of the first \<open>k\<close> ancestors of
  \<open>n\<close>. A parent chain is never longer than the number of nodes of the document.
\<close>

fun is_ancestor_within :: "nat \<Rightarrow> document \<Rightarrow> node_id \<Rightarrow> node_id \<Rightarrow> bool" where
  "is_ancestor_within 0 d a n = (a = n)"
| "is_ancestor_within (Suc k) d a n =
     (a = n \<or> (case parent_of d n of None \<Rightarrow> False | Some p \<Rightarrow> is_ancestor_within k d a p))"

text \<open>
  \<open>p.appendChild(c)\<close> raises when \<open>c\<close> is \<open>p\<close> or an ancestor of \<open>p\<close>; otherwise it takes
  \<open>c\<close> out of the parent it has, if any, and makes it the last child of \<open>p\<close>.
\<close>

definition set_children :: "node_id \<Rightarrow> node_id list \<Rightarrow> document \<Rightarrow> document" where
  "set_children n cs d = update_node n (\<lambda>e. e\<lparr>children := cs\<rparr>) d"

definition set_parent :: "node_id \<Rightarrow> node_id option \<Rightarrow> document \<Rightarrow> document" where
  "set_parent n p d = update_node n (\<lambda>e. e\<lparr>parent := p\<rparr>) d"

definition appendChild :: "node_id \<Rightarrow> node_id \<Rightarrow> document \<Rightarrow> dom_error + document" where
  "appendChild p c d =
     (if is_ancestor_within (next_id d) d c p then Inl HierarchyRequestError
      else
        let d1 = (case parent_of d c of
                    None \<Rightarrow> d
                  | Some q \<Rightarrow> set_children q (removeAll c (children_of d q)) d);
            d2 = set_children p (children_of d1 p @ [c]) d1
        in Inr (set_parent c (Some p) d2))"

text \<open>\<open>p.removeChild(c)\<close> raises when \<open>c\<close> is not a child of \<open>p\<close>.\<close>

definition removeChild :: "node_id \<Rightarrow> node_id \<Rightarrow> document \<Rightarrow> dom_error + document" where
  "removeChild p c d =
     (if parent_of d c \<noteq> Some p then Inl NotFoundError
      else Inr (set_parent c None (set_children p (removeAll c (children_of d p)) d)))"

subsection \<open>The widget\<close>

record api_styles =
  block :: string
  loader :: string
  input :: string
  button :: string

text \<open>
  The host API as the class uses it: the style names, and the translation function
  \<open>i18n.t\<close>.
\<close>

record API =
  styles :: api_styles
  i18n_t :: "string \<Rightarrow> string"

record ImageConfig =
  captionPlaceholder :: string
  buttonContent :: "string option"

record ImageToolData =
  toolData_file :: "(string \<times> js_value) list option"
  toolData_caption :: "string option"

text \<open>
  The interface \<open>Nodes\<close>. The class tests \<open>imagePreloader\<close> and \<open>caption\<close> against
  \<open>undefined\<close> before it writes to them, so these two references are optional here, as
  \<open>imageEl\<close> is.
\<close>

record Nodes =
  wrapper :: node_id
  imageContainer :: node_id
  fileButton :: node_id
  imageEl :: "node_id option"
  imagePreloader :: "node_id option"
  caption :: "node_id option"

text \<open>
  An instance of \<open>Ui\<close> together with the document its nodes live in. \<open>console\<close> holds
  what \<open>render\<close> logs, and \<open>selectFileCalls\<close> counts the calls of the host's
  \<open>onSelectFile\<close> callback, whose own effect is the host's.
\<close>

record Ui =
  api :: API
  config :: ImageConfig
  readOnly :: bool
  nodes :: Nodes
  doc :: document
  console :: "ImageToolData list"
  selectFileCalls :: nat

record ConstructorParams =
  cp_api :: API
  cp_config :: ImageConfig
  cp_readOnly :: bool

text \<open>The getter \<open>CSS\<close>.\<close>

record CSS_classes =
  css_baseClass :: string
  css_loading :: string
  css_input :: string
  css_button :: string
  css_wrapper :: string
  css_imageContainer :: string
  css_imagePreloader :: string
  css_imageEl :: string
  css_caption :: string

definition CSS :: "API \<Rightarrow> CSS_classes" where
  "CSS a =
     \<lparr>css_baseClass = block (styles a),
      css_loading = loader (styles a),
      css_input = input (styles a),
      css_button = button (styles a),
      css_wrapper = ''image-tool'',
      css_imageContainer = ''image-tool__image'',
      css_imagePreloader = ''image-tool__image-preloader'',
      css_imageEl = ''image-tool__image-picture'',
      css_caption = ''image-tool__caption''\<rparr>"

text \<open>
  Modelled from the spec: the helper \<open>make\<close> of \<open>./utils/dom\<close>, which is not among the
  sources. The spec describes it as the generic helper that makes an element with classes
  and attributes, parameterised by element kind, class list and attribute mapping: a fresh
  element, not attached to any parent, that carries the given classes and has every
  attribute of the mapping set to its value.
\<close>

definition make :: "string \<Rightarrow> string list \<Rightarrow> (string \<times> js_value) list \<Rightarrow> document \<Rightarrow> node_id \<times> document" where
  "make tag classNames attributes d =
     (let (el, d1) = createElement tag d
      in (el, update_node el (\<lambda>e. e\<lparr>classList := fold token_add classNames (classList e),
                                     props := fold (\<lambda>(k, v) m. m(k \<mapsto> v)) attributes (props e)\<rparr>) d1))"

text \<open>
  \<open>createFileButton\<close>. \<open>IconPicture\<close> is a constant of the icon package and is a
  parameter here. The markup assigned to \<open>innerHTML\<close> is kept as text.
\<close>

definition createFileButton :: "string \<Rightarrow> API \<Rightarrow> ImageConfig \<Rightarrow> document \<Rightarrow> node_id \<times> document" where
  "createFileButton IconPicture a cfg d =
     (let (button_el, d1) = make ''div'' [css_button (CSS a)] [] d;
          d2 = set_innerHTML button_el
                 (case buttonContent cfg of
                    Some content \<Rightarrow> content
                  | None \<Rightarrow> IconPicture @ '' '' @ i18n_t a ''Select an Image'') d1;
          d3 = addEventListener button_el ''click'' SelectFileClick d2
      in (button_el, d3))"

text \<open>
  A method returns the instance as the call leaves it, and either the exception it raised
  or its result.
\<close>

type_synonym 'a outcome = "Ui \<times> (dom_error + 'a)"

text \<open>The constructor, on a document of its own.\<close>

definition Ui_constructor :: "string \<Rightarrow> ConstructorParams \<Rightarrow> unit outcome" where
  "Ui_constructor IconPicture params =
     (let a = cp_api params; cfg = cp_config params;
          (wrapper_el, d1) = make ''div'' [css_baseClass (CSS a), css_wrapper (CSS a)] [] empty_document;
          (imageContainer_el, d2) = make ''div'' [css_imageContainer (CSS a)] [] d1;
          (fileButton_el, d3) = createFileButton IconPicture a cfg d2;
          (imagePreloader_el, d4) = make ''div'' [css_imagePreloader (CSS a)] [] d3;
          (caption_el, d5) = make ''div'' [] [] d4;
          d6 = update_node caption_el
                 (\<lambda>e. e\<lparr>dataset := (dataset e)(''placeholder'' \<mapsto> captionPlaceholder cfg)\<rparr>) d5;
          u = \<lparr>api = a, config = cfg, readOnly = cp_readOnly params,
               nodes = \<lparr>wrapper = wrapper_el, imageContainer = imageContainer_el,
                        fileButton = fileButton_el, imageEl = None,
                        imagePreloader = Some imagePreloader_el, caption = Some caption_el\<rparr>,
               doc = d6, console = [], selectFileCalls = 0\<rparr>
      in case appendChild imageContainer_el imagePreloader_el d6 of
           Inl err \<Rightarrow> (u, Inl err)
         | Inr d7 \<Rightarrow>
            (case appendChild wrapper_el imageContainer_el d7 of
               Inl err \<Rightarrow> (u\<lparr>doc := d7\<rparr>, Inl err)
             | Inr d8 \<Rightarrow>
                (case appendChild wrapper_el fileButton_el d8 of
                   Inl err \<Rightarrow> (u\<lparr>doc := d8\<rparr>, Inl err)
                 | Inr d9 \<Rightarrow> (u\<lparr>doc := d9\<rparr>, Inr ()))))"

text \<open>\<open>applyTune\<close>.\<close>

definition applyTune :: "string \<Rightarrow> bool \<Rightarrow> Ui \<Rightarrow> unit outcome" where
  "applyTune tuneName status u =
     (case classList_toggle (css_wrapper (CSS (api u)) @ ''--'' @ tuneName) status
             (classList_of (doc u) (wrapper (nodes u))) of
        Inl err \<Rightarrow> (u, Inl err)
      | Inr cl \<Rightarrow> (u\<lparr>doc := update_node (wrapper (nodes u)) (\<lambda>e. e\<lparr>classList := cl\<rparr>) (doc u)\<rparr>, Inr ()))"

text \<open>\<open>toggleStatus\<close>: the loop over the keys of \<open>UiState\<close>.\<close>

fun toggleStatus_loop :: "UiState list \<Rightarrow> UiState \<Rightarrow> Ui \<Rightarrow> unit outcome" where
  "toggleStatus_loop [] status u = (u, Inr ())"
| "toggleStatus_loop (statusType # rest) status u =
     (case classList_toggle (css_wrapper (CSS (api u)) @ ''--'' @ UiState_value statusType)
             (status = statusType) (classList_of (doc u) (wrapper (nodes u))) of
        Inl err \<Rightarrow> (u, Inl err)
      | Inr cl \<Rightarrow>
         toggleStatus_loop rest status
           (u\<lparr>doc := update_node (wrapper (nodes u)) (\<lambda>e. e\<lparr>classList := cl\<rparr>) (doc u)\<rparr>))"

definition toggleStatus :: "UiState \<Rightarrow> Ui \<Rightarrow> unit outcome" where
  "toggleStatus status u = toggleStatus_loop UiState_keys status u"

text \<open>
  The test \<open>/\.mp4$/.test(url)\<close>: the pattern is tried at every position of the text, and
  \<open>$\<close> (without the multiline flag) holds at the end of the text only.
\<close>

fun regexp_mp4_test :: "string \<Rightarrow> bool" where
  "regexp_mp4_test [] = False"
| "regexp_mp4_test (c # cs) = (c # cs = ''.mp4'' \<or> regexp_mp4_test cs)"

text \<open>
  \<open>fillImage\<close>. The listener it registers closes over \<open>tempImageEl\<close>, the element it is
  registered on.
\<close>

definition fillImage_tag :: "js_value \<Rightarrow> string" where
  "fillImage_tag url = (if regexp_mp4_test (js_to_string url) then ''VIDEO'' else ''IMG'')"

definition fillImage_attributes :: "js_value \<Rightarrow> (string \<times> js_value) list" where
  "fillImage_attributes url =
     (if fillImage_tag url = ''VIDEO''
      then [(''src'', url), (''autoplay'', Bool True), (''loop'', Bool True),
            (''muted'', Bool True), (''playsinline'', Bool True)]
      else [(''src'', url)])"

definition fillImage_eventName :: "js_value \<Rightarrow> string" where
  "fillImage_eventName url = (if fillImage_tag url = ''VIDEO'' then ''loadeddata'' else ''load'')"

definition fillImage :: "js_value \<Rightarrow> Ui \<Rightarrow> unit outcome" where
  "fillImage url u =
     (let (tempImageEl, d1) =
            make (fillImage_tag url) [css_imageEl (CSS (api u))] (fillImage_attributes url) (doc u);
          d2 = set_style (fileButton (nodes u)) ''display'' ''none'' d1;
          d3 = set_style (fileButton (nodes u)) ''pointerEvents'' ''none'' d2;
          d4 = addEventListener tempImageEl (fillImage_eventName url) MediaReady d3
      in (u\<lparr>doc := d4\<rparr>, Inr ()))"

text \<open>The body of the listener that \<open>fillImage\<close> registers on \<open>tempImageEl\<close>.\<close>

definition onMediaReady :: "node_id \<Rightarrow> Ui \<Rightarrow> unit outcome" where
  "onMediaReady tempImageEl u =
     (case (case imageEl (nodes u) of
              Some old \<Rightarrow> removeChild (imageContainer (nodes u)) old (doc u)
            | None \<Rightarrow> Inr (doc u)) of
        Inl err \<Rightarrow> (u, Inl err)
      | Inr d1 \<Rightarrow>
         (let u1 = u\<lparr>doc := d1, nodes := (nodes u)\<lparr>imageEl := Some tempImageEl\<rparr>\<rparr>
          in case appendChild (imageContainer (nodes u1)) tempImageEl (doc u1) of
               Inl err \<Rightarrow> (u1, Inl err)
             | Inr d2 \<Rightarrow>
                (case toggleStatus Filled (u1\<lparr>doc := d2\<rparr>) of
                   (u2, Inl err) \<Rightarrow> (u2, Inl err)
                 | (u2, Inr _) \<Rightarrow>
                    (case imagePreloader (nodes u2) of
                       Some pre \<Rightarrow> (u2\<lparr>doc := set_style pre ''backgroundImage'' [] (doc u2)\<rparr>, Inr ())
                     | None \<Rightarrow> (u2, Inr ())))))"

text \<open>\<open>render\<close>.\<close>

definition render :: "ImageToolData \<Rightarrow> Ui \<Rightarrow> node_id outcome" where
  "render toolData u =
     (let u0 = u\<lparr>console := console u @ [toolData]\<rparr>;
          (u1, r) = (case toolData_file toolData of
                       None \<Rightarrow> toggleStatus Empty u0
                     | Some f \<Rightarrow>
                        (if length (map fst f) = 0 then toggleStatus Empty u0
                         else fillImage (case map_of f ''url'' of None \<Rightarrow> Undefined | Some v \<Rightarrow> v) u0))
      in case r of
           Inl err \<Rightarrow> (u1, Inl err)
         | Inr _ \<Rightarrow> (u1, Inr (wrapper (nodes u1))))"

text \<open>\<open>hidePreloader\<close>: the preloader is dereferenced without a test.\<close>

definition hidePreloader :: "Ui \<Rightarrow> unit outcome" where
  "hidePreloader u =
     (case imagePreloader (nodes u) of
        None \<Rightarrow> (u, Inl TypeError)
      | Some pre \<Rightarrow> toggleStatus Empty (u\<lparr>doc := set_style pre ''backgroundImage'' [] (doc u)\<rparr>))"

text \<open>\<open>fillCaption\<close>.\<close>

definition fillCaption :: "string \<Rightarrow> Ui \<Rightarrow> unit outcome" where
  "fillCaption text u =
     (case caption (nodes u) of
        Some cap \<Rightarrow> (u\<lparr>doc := set_innerHTML cap text (doc u)\<rparr>, Inr ())
      | None \<Rightarrow> (u, Inr ()))"

text \<open>\<open>clearImage\<close>.\<close>

definition clearImage :: "Ui \<Rightarrow> unit outcome" where
  "clearImage u =
     (case imageEl (nodes u) of
        Some imageElement \<Rightarrow>
          (let d1 = set_prop imageElement ''src'' (Str []) (doc u);
               d2 = set_style imageElement ''display'' ''none'' d1;
               d3 = set_style (fileButton (nodes u)) ''display'' ''flex'' d2;
               d4 = set_style (fileButton (nodes u)) ''pointerEvents'' ''auto'' d3
           in (u\<lparr>doc := d4\<rparr>, Inr ()))
      | None \<Rightarrow> (u, Inr ()))"

subsection \<open>Events and runs\<close>

text \<open>
  Running one listener for an event whose target is node \<open>n\<close>. The click listener of the
  file button calls the host's \<open>onSelectFile\<close>.
\<close>

fun run_listener :: "listener \<Rightarrow> node_id \<Rightarrow> Ui \<Rightarrow> unit outcome" where
  "run_listener SelectFileClick n u = (u\<lparr>selectFileCalls := Suc (selectFileCalls u)\<rparr>, Inr ())"
| "run_listener MediaReady n u = onMediaReady n u"

text \<open>
  Dispatching an event to a node runs the listeners registered for it, in order; an
  exception of a listener is reported and the next listener still runs. The first
  exception is kept.
\<close>

fun run_listeners :: "listener list \<Rightarrow> node_id \<Rightarrow> Ui \<Rightarrow> unit outcome" where
  "run_listeners [] n u = (u, Inr ())"
| "run_listeners (l # ls) n u =
     (case run_listener l n u of
        (u1, Inl err) \<Rightarrow> (fst (run_listeners ls n u1), Inl err)
      | (u1, Inr _) \<Rightarrow> run_listeners ls n u1)"

definition dispatchEvent :: "node_id \<Rightarrow> string \<Rightarrow> Ui \<Rightarrow> unit outcome" where
  "dispatchEvent n ev u =
     run_listeners (map snd (filter (\<lambda>(name, l). name = ev) (listeners_of (doc u) n))) n u"

text \<open>What the host and the browser can do with an instance.\<close>

datatype operation =
  Render ImageToolData
| HidePreloader
| FillImage js_value
| FillCaption string
| ClearImage
| ApplyTune string bool
| Dispatch node_id string

fun step :: "operation \<Rightarrow> Ui \<Rightarrow> Ui" where
  "step (Render toolData) u = fst (render toolData u)"
| "step HidePreloader u = fst (hidePreloader u)"
| "step (FillImage url) u = fst (fillImage url u)"
| "step (FillCaption text) u = fst (fillCaption text u)"
| "step ClearImage u = fst (clearImage u)"
| "step (ApplyTune tuneName status) u = fst (applyTune tuneName status u)"
| "step (Dispatch n ev) u = fst (dispatchEvent n ev u)"

text \<open>
  A run: the instance after a sequence of operations, each starting from what the one
  before left, whether that one raised or not.
\<close>

definition run :: "operation list \<Rightarrow> Ui \<Rightarrow> Ui" where
  "run ops u = foldl (\<lambda>u' operation. step operation u') u ops"

definition new_Ui :: "string \<Rightarrow> ConstructorParams \<Rightarrow> Ui" where
  "new_Ui IconPicture params = fst (Ui_constructor IconPicture params)"

section \<open>Notions of the statements\<close>

subsection \<open>What is observed of an instance\<close>

definition tagName_of :: "document \<Rightarrow> node_id \<Rightarrow> string" where
  "tagName_of d n = (case heap d n of None \<Rightarrow> [] | Some e \<Rightarrow> tagName e)"

definition dataset_of :: "document \<Rightarrow> node_id \<Rightarrow> string \<Rightarrow> string option" where
  "dataset_of d n k = (case heap d n of None \<Rightarrow> None | Some e \<Rightarrow> dataset e k)"

definition innerHTML_of :: "document \<Rightarrow> node_id \<Rightarrow> string" where
  "innerHTML_of d n = (case heap d n of None \<Rightarrow> [] | Some e \<Rightarrow> innerHTML e)"

text \<open>A media element is an image or a video element.\<close>

definition is_media_tag :: "string \<Rightarrow> bool" where
  "is_media_tag t = (t = ''IMG'' \<or> t = ''VIDEO'')"

text \<open>The media elements among the children of the media container.\<close>

definition attached_media :: "Ui \<Rightarrow> node_id list" where
  "attached_media u =
     filter (\<lambda>n. is_media_tag (tagName_of (doc u) n))
       (children_of (doc u) (imageContainer (nodes u)))"

text \<open>The class list of the wrapper, and the state modifiers that are on it.\<close>

definition wrapper_classes :: "Ui \<Rightarrow> string list" where
  "wrapper_classes u = classList_of (doc u) (wrapper (nodes u))"

definition state_class :: "UiState \<Rightarrow> string" where
  "state_class s = ''image-tool--'' @ UiState_value s"

definition state_classes_on :: "Ui \<Rightarrow> UiState list" where
  "state_classes_on u =
     filter (\<lambda>s. state_class s \<in> set (classList_of (doc u) (wrapper (nodes u)))) UiState_keys"

text \<open>Tool data without a file descriptor: the field is absent, or an object without keys.\<close>

definition no_file :: "ImageToolData \<Rightarrow> bool" where
  "no_file toolData \<longleftrightarrow> toolData_file toolData = None \<or> toolData_file toolData = Some []"

definition file_url :: "ImageToolData \<Rightarrow> js_value" where
  "file_url toolData =
     (case toolData_file toolData of
        None \<Rightarrow> Undefined
      | Some f \<Rightarrow> (case map_of f ''url'' of None \<Rightarrow> Undefined | Some v \<Rightarrow> v))"

text \<open>Node \<open>n\<close> has the readiness listener of \<open>fillImage\<close> registered for event \<open>ev\<close>.\<close>

definition readiness_listener :: "Ui \<Rightarrow> node_id \<Rightarrow> string \<Rightarrow> bool" where
  "readiness_listener u n ev \<longleftrightarrow> (ev, MediaReady) \<in> set (listeners_of (doc u) n)"

text \<open>The operations that call \<open>toggleStatus\<close>, in the instance they start from.\<close>

definition sets_state :: "Ui \<Rightarrow> operation \<Rightarrow> bool" where
  "sets_state u operation =
     (case operation of
        Render toolData \<Rightarrow> no_file toolData
      | HidePreloader \<Rightarrow> True
      | Dispatch n ev \<Rightarrow> readiness_listener u n ev
      | _ \<Rightarrow> False)"

text \<open>A call of \<open>applyTune\<close> whose tune name is the value of a member of \<open>UiState\<close>.\<close>

definition tune_of_state_name :: "operation \<Rightarrow> bool" where
  "tune_of_state_name operation =
     (case operation of
        ApplyTune tuneName status \<Rightarrow> tuneName \<in> set (map UiState_value UiState_keys)
      | _ \<Rightarrow> False)"

text \<open>
  \<open>contains d root n\<close>: node \<open>n\<close> is \<open>root\<close> or a descendant of \<open>root\<close> in document \<open>d\<close>.
\<close>

inductive contains :: "document \<Rightarrow> node_id \<Rightarrow> node_id \<Rightarrow> bool"
  for d :: document and root :: node_id where
  contains_self: "contains d root root"
| contains_child: "contains d root p \<Longrightarrow> c \<in> set (children_of d p) \<Longrightarrow> contains d root c"

code_pred contains .

text \<open>
  The loading placeholder is the background image of the preloader. \<open>with_placeholder bg u\<close>
  is instance \<open>u\<close> with placeholder \<open>bg\<close> on its preloader, and
  \<open>preloader_background u\<close> is the placeholder that the preloader of \<open>u\<close> shows.
\<close>

definition with_placeholder :: "string \<Rightarrow> Ui \<Rightarrow> Ui" where
  "with_placeholder bg u =
     (case imagePreloader (nodes u) of
        None \<Rightarrow> u
      | Some pre \<Rightarrow> u\<lparr>doc := set_style pre ''backgroundImage'' bg (doc u)\<rparr>)"

definition preloader_background :: "Ui \<Rightarrow> string option" where
  "preloader_background u =
     map_option (\<lambda>pre. style_of (doc u) pre ''backgroundImage'') (imagePreloader (nodes u))"

text \<open>Constructor parameters for the concrete instances of the statements.\<close>

definition example_params :: ConstructorParams where
  "example_params =
     \<lparr>cp_api = \<lparr>styles = \<lparr>block = ''cdx-block'', loader = ''cdx-loader'',
                           input = ''cdx-input'', button = ''cdx-button''\<rparr>,
               i18n_t = id\<rparr>,
      cp_config = \<lparr>captionPlaceholder = ''Enter a caption'', buttonContent = None\<rparr>,
      cp_readOnly = False\<rparr>"

definition example_icon :: string where
  "example_icon = ''<svg/>''"

subsection \<open>Notions of the proofs\<close>

text \<open>The element that \<open>nodes.imageEl\<close> refers to, as a list.\<close>

definition media_of :: "Ui \<Rightarrow> node_id list" where
  "media_of u = (case imageEl (nodes u) of None \<Rightarrow> [] | Some e \<Rightarrow> [e])"

text \<open>What the loop of \<open>toggleStatus\<close> does to a class list.\<close>

definition toggle_state_class :: "UiState \<Rightarrow> UiState \<Rightarrow> string list \<Rightarrow> string list" where
  "toggle_state_class status t cl =
     (if status = t then token_add (state_class t) cl else token_remove (state_class t) cl)"

definition set_state_classes :: "UiState \<Rightarrow> string list \<Rightarrow> string list" where
  "set_state_classes status cl = fold (toggle_state_class status) UiState_keys cl"

text \<open>The document with one more element, and the element that \<open>fillImage\<close> adds.\<close>

definition alloc :: "element \<Rightarrow> document \<Rightarrow> document" where
  "alloc e d = \<lparr>heap = (heap d)(next_id d \<mapsto> e), next_id = Suc (next_id d)\<rparr>"

definition media_element :: "string \<Rightarrow> js_value \<Rightarrow> element" where
  "media_element cls url =
     (new_element (fillImage_tag url))
       \<lparr>classList := [cls],
        props := fold (\<lambda>(k, v) m. m(k \<mapsto> v)) (fillImage_attributes url) Map.empty,
        listeners := [(fillImage_eventName url, MediaReady)]\<rparr>"

text \<open>
  The two tree changes of the readiness listener: the document after the previous media
  element is removed from the container, and after the new one is appended.
\<close>

definition detach_old :: "Ui \<Rightarrow> document" where
  "detach_old u =
     (case imageEl (nodes u) of
        None \<Rightarrow> doc u
      | Some old \<Rightarrow>
          set_parent old None
            (set_children (imageContainer (nodes u))
               (removeAll old (children_of (doc u) (imageContainer (nodes u)))) (doc u)))"

definition attach_media :: "node_id \<Rightarrow> Ui \<Rightarrow> document" where
  "attach_media n u =
     set_parent n (Some (imageContainer (nodes u)))
       (set_children (imageContainer (nodes u))
          (children_of (detach_old u) (imageContainer (nodes u)) @ [n]) (detach_old u))"

text \<open>
  The shape of every instance that a run from the constructor reaches. The constructor
  makes the wrapper, the media container, the file button, the preloader and the caption
  as nodes 0 to 4; every later node is a media element made by \<open>fillImage\<close>. The
  container holds the preloader and, after it, the element of \<open>nodes.imageEl\<close> if there
  is one; every other media element has no parent; the caption has none either.
\<close>

definition ui_inv :: "Ui \<Rightarrow> bool" where
  "ui_inv u \<longleftrightarrow>
     wrapper (nodes u) = 0 \<and> imageContainer (nodes u) = 1 \<and> fileButton (nodes u) = 2 \<and>
     imagePreloader (nodes u) = Some 3 \<and> caption (nodes u) = Some 4 \<and>
     5 \<le> next_id (doc u) \<and>
     (\<forall>n. (heap (doc u) n = None) = (next_id (doc u) \<le> n)) \<and>
     children_of (doc u) 0 = [1, 2] \<and>
     children_of (doc u) 1 = 3 # media_of u \<and>
     (\<forall>n. 2 \<le> n \<longrightarrow> children_of (doc u) n = []) \<and>
     parent_of (doc u) 0 = None \<and> parent_of (doc u) 1 = Some 0 \<and>
     parent_of (doc u) 2 = Some 0 \<and> parent_of (doc u) 3 = Some 1 \<and>
     parent_of (doc u) 4 = None \<and>
     (\<forall>n. 5 \<le> n \<longrightarrow> parent_of (doc u) n = (if imageEl (nodes u) = Some n then Some 1 else None)) \<and>
     (\<forall>n. imageEl (nodes u) = Some n \<longrightarrow> 5 \<le> n \<and> n < next_id (doc u)) \<and>
     (\<forall>n. n < 5 \<longrightarrow> listeners_of (doc u) n = (if n = 2 then [(''click'', SelectFileClick)] else [])) \<and>
     (\<forall>n. 5 \<le> n \<and> n < next_id (doc u) \<longrightarrow> (\<exists>ev. listeners_of (doc u) n = [(ev, MediaReady)])) \<and>
     (\<forall>n. n < 5 \<longrightarrow> tagName_of (doc u) n = ''div'') \<and>
     (\<forall>n. 5 \<le> n \<and> n < next_id (doc u) \<longrightarrow> is_media_tag (tagName_of (doc u) n)) \<and>
     dataset_of (doc u) 4 ''placeholder'' = Some (captionPlaceholder (config u))"

text \<open>An update of an element that leaves its place in the tree and its listeners alone.\<close>

definition structural_id :: "(element \<Rightarrow> element) \<Rightarrow> bool" where
  "structural_id f \<longleftrightarrow>
     (\<forall>e. children (f e) = children e \<and> parent (f e) = parent e \<and>
          listeners (f e) = listeners e \<and> tagName (f e) = tagName e \<and> dataset (f e) = dataset e)"

section \<open>Properties\<close>

subsection \<open>The store\<close>

lemma heap_update_node:
  "heap (update_node n f d) m = (if m = n then map_option f (heap d n) else heap d m)"
  by (simp add: update_node_def split: option.splits)

lemma next_id_update_node: "next_id (update_node n f d) = next_id d"
  by (simp add: update_node_def split: option.splits)

lemma heap_None_update_node: "(heap (update_node n f d) m = None) = (heap d m = None)"
  by (simp add: heap_update_node)

lemma update_node_ident: "update_node n (\<lambda>e. e) d = d"
  by (cases "heap d n") (simp_all add: update_node_def map_upd_triv)

lemma update_node_commute:
  "n \<noteq> m \<Longrightarrow> update_node n f (update_node m g d) = update_node m g (update_node n f d)"
  by (auto simp add: update_node_def fun_upd_twist split: option.splits)

lemmas setter_defs = set_style_def set_prop_def set_innerHTML_def addEventListener_def
  set_children_def set_parent_def

lemmas node_of_defs = children_of_def parent_of_def classList_of_def listeners_of_def
  style_of_def prop_of_def tagName_of_def dataset_of_def innerHTML_of_def

lemma keep_of:
  "(\<And>e. children (f e) = children e) \<Longrightarrow> children_of (update_node n f d) m = children_of d m"
  "(\<And>e. parent (f e) = parent e) \<Longrightarrow> parent_of (update_node n f d) m = parent_of d m"
  "(\<And>e. listeners (f e) = listeners e) \<Longrightarrow> listeners_of (update_node n f d) m = listeners_of d m"
  "(\<And>e. tagName (f e) = tagName e) \<Longrightarrow> tagName_of (update_node n f d) m = tagName_of d m"
  "(\<And>e. dataset (f e) = dataset e) \<Longrightarrow> dataset_of (update_node n f d) m k = dataset_of d m k"
  "(\<And>e. classList (f e) = classList e) \<Longrightarrow> classList_of (update_node n f d) m = classList_of d m"
  "(\<And>e. style (f e) = style e) \<Longrightarrow> style_of (update_node n f d) m k' = style_of d m k'"
  "(\<And>e. props (f e) = props e) \<Longrightarrow> prop_of (update_node n f d) m k'' = prop_of d m k''"
  "(\<And>e. innerHTML (f e) = innerHTML e) \<Longrightarrow> innerHTML_of (update_node n f d) m = innerHTML_of d m"
  by (simp_all add: node_of_defs heap_update_node split: option.splits)

lemma children_of_set_children:
  "children_of (set_children n cs d) m =
     (if m = n \<and> heap d n \<noteq> None then cs else children_of d m)"
  by (auto simp add: set_children_def node_of_defs heap_update_node)

lemma parent_of_set_parent:
  "parent_of (set_parent n p d) m = (if m = n \<and> heap d n \<noteq> None then p else parent_of d m)"
  by (auto simp add: set_parent_def node_of_defs heap_update_node)

lemma set_children_frame:
  "next_id (set_children n cs d) = next_id d"
  "(heap (set_children n cs d) m = None) = (heap d m = None)"
  "parent_of (set_children n cs d) m = parent_of d m"
  "listeners_of (set_children n cs d) m = listeners_of d m"
  "tagName_of (set_children n cs d) m = tagName_of d m"
  "dataset_of (set_children n cs d) m k = dataset_of d m k"
  "classList_of (set_children n cs d) m = classList_of d m"
  "style_of (set_children n cs d) m k' = style_of d m k'"
  "prop_of (set_children n cs d) m k'' = prop_of d m k''"
  "innerHTML_of (set_children n cs d) m = innerHTML_of d m"
  by (simp_all add: set_children_def keep_of next_id_update_node heap_None_update_node)

lemma set_parent_frame:
  "next_id (set_parent n p d) = next_id d"
  "(heap (set_parent n p d) m = None) = (heap d m = None)"
  "children_of (set_parent n p d) m = children_of d m"
  "listeners_of (set_parent n p d) m = listeners_of d m"
  "tagName_of (set_parent n p d) m = tagName_of d m"
  "dataset_of (set_parent n p d) m k = dataset_of d m k"
  "classList_of (set_parent n p d) m = classList_of d m"
  "style_of (set_parent n p d) m k' = style_of d m k'"
  "prop_of (set_parent n p d) m k'' = prop_of d m k''"
  "innerHTML_of (set_parent n p d) m = innerHTML_of d m"
  by (simp_all add: set_parent_def keep_of next_id_update_node heap_None_update_node)

lemma alloc_of:
  "children_of (alloc e d) m = (if m = next_id d then children e else children_of d m)"
  "parent_of (alloc e d) m = (if m = next_id d then parent e else parent_of d m)"
  "listeners_of (alloc e d) m = (if m = next_id d then listeners e else listeners_of d m)"
  "tagName_of (alloc e d) m = (if m = next_id d then tagName e else tagName_of d m)"
  "dataset_of (alloc e d) m k = (if m = next_id d then dataset e k else dataset_of d m k)"
  "classList_of (alloc e d) m = (if m = next_id d then classList e else classList_of d m)"
  "(heap (alloc e d) m = None) = (m \<noteq> next_id d \<and> heap d m = None)"
  "next_id (alloc e d) = Suc (next_id d)"
  by (simp_all add: alloc_def node_of_defs)

lemma update_node_alloc: "update_node (next_id d) f (alloc e d) = alloc (f e) d"
  by (simp add: update_node_def alloc_def)

lemma createElement_alloc: "createElement tag d = (next_id d, alloc (new_element tag) d)"
  by (simp add: createElement_def alloc_def)

subsection \<open>Class tokens and \<open>toggleStatus\<close>\<close>

lemma state_class_toggle:
  "classList_toggle (css_wrapper (CSS a) @ ''--'' @ UiState_value t) (status = t) cl =
     Inr (toggle_state_class status t cl)"
  by (cases t) (simp_all add: classList_toggle_def CSS_def state_class_def ascii_whitespace_def
      toggle_state_class_def)

lemma toggleStatus_loop_eq:
  "toggleStatus_loop ts status u =
     (u\<lparr>doc := update_node (wrapper (nodes u))
                 (\<lambda>e. e\<lparr>classList := fold (toggle_state_class status) ts (classList e)\<rparr>) (doc u)\<rparr>,
      Inr ())"
proof (induction ts arbitrary: u)
  case Nil
  show ?case
    by (simp add: update_node_ident)
next
  case (Cons t ts)
  have step1: "toggleStatus_loop (t # ts) status u =
      toggleStatus_loop ts status
        (u\<lparr>doc := update_node (wrapper (nodes u))
           (\<lambda>e. e\<lparr>classList := toggle_state_class status t (classList_of (doc u) (wrapper (nodes u)))\<rparr>)
           (doc u)\<rparr>)"
    by (simp only: toggleStatus_loop.simps state_class_toggle sum.case)
  show ?case
    by (cases "heap (doc u) (wrapper (nodes u))")
      (simp_all add: step1 Cons.IH classList_of_def update_node_def del: toggleStatus_loop.simps)
qed

lemma toggleStatus_eq:
  "toggleStatus status u =
     (u\<lparr>doc := update_node (wrapper (nodes u))
                 (\<lambda>e. e\<lparr>classList := set_state_classes status (classList e)\<rparr>) (doc u)\<rparr>, Inr ())"
  by (simp add: toggleStatus_def toggleStatus_loop_eq set_state_classes_def)

subsection \<open>The invariant\<close>

lemma structural_id_of:
  assumes "structural_id f"
  shows "children_of (update_node n f d) m = children_of d m"
    and "parent_of (update_node n f d) m = parent_of d m"
    and "listeners_of (update_node n f d) m = listeners_of d m"
    and "tagName_of (update_node n f d) m = tagName_of d m"
    and "dataset_of (update_node n f d) m k = dataset_of d m k"
  using assms unfolding structural_id_def
  by (simp_all add: keep_of)

lemma structural_id_style [simp]: "structural_id (\<lambda>e. e\<lparr>style := g e\<rparr>)"
  and structural_id_props [simp]: "structural_id (\<lambda>e. e\<lparr>props := h e\<rparr>)"
  and structural_id_classList [simp]: "structural_id (\<lambda>e. e\<lparr>classList := c e\<rparr>)"
  and structural_id_innerHTML [simp]: "structural_id (\<lambda>e. e\<lparr>innerHTML := t e\<rparr>)"
  by (simp_all add: structural_id_def)

lemma ui_inv_cosmetic_eq:
  assumes "structural_id f"
  shows "ui_inv (u\<lparr>doc := update_node n f d\<rparr>) = ui_inv (u\<lparr>doc := d\<rparr>)"
  unfolding ui_inv_def
  by (simp add: structural_id_of [OF assms] heap_None_update_node next_id_update_node media_of_def)

lemma ui_inv_cosmetic:
  assumes "ui_inv u" and "structural_id f"
  shows "ui_inv (u\<lparr>doc := update_node n f (doc u)\<rparr>)"
  using assms by (simp add: ui_inv_cosmetic_eq)

lemma ui_inv_alloc:
  assumes "ui_inv u" and "is_media_tag (tagName e)" and "children e = []" and "parent e = None"
    and "listeners e = [(ev, MediaReady)]"
  shows "ui_inv (u\<lparr>doc := alloc e (doc u)\<rparr>)"
  using assms unfolding ui_inv_def
  by (auto simp add: alloc_of media_of_def less_Suc_eq)

lemma construct_ok: "snd (Ui_constructor icon params) = Inr ()"
  by (simp add: Ui_constructor_def make_def createElement_def createFileButton_def
        empty_document_def appendChild_def Let_def node_of_defs setter_defs heap_update_node
        next_id_update_node new_element_def update_node_def CSS_def)

lemma construct_inv: "ui_inv (new_Ui icon params)"
  by (auto simp add: new_Ui_def Ui_constructor_def make_def createElement_def createFileButton_def
        empty_document_def appendChild_def Let_def node_of_defs setter_defs heap_update_node
        next_id_update_node new_element_def update_node_def CSS_def ui_inv_def media_of_def)

subsection \<open>\<open>fillImage\<close>\<close>

lemma fillImage_eq:
  assumes "fileButton (nodes u) \<noteq> next_id (doc u)"
  shows "fillImage url u =
     (u\<lparr>doc := set_style (fileButton (nodes u)) ''pointerEvents'' ''none''
                 (set_style (fileButton (nodes u)) ''display'' ''none''
                    (alloc (media_element (css_imageEl (CSS (api u))) url) (doc u)))\<rparr>, Inr ())"
proof -
  have neq: "next_id (doc u) \<noteq> fileButton (nodes u)"
    using assms by simp
  show ?thesis
    by (simp add: fillImage_def make_def createElement_alloc update_node_alloc Let_def
        set_style_def addEventListener_def update_node_commute [OF neq] media_element_def
        new_element_def token_add_def)
qed

lemma media_tag_fillImage_tag: "is_media_tag (fillImage_tag url)"
  by (simp add: is_media_tag_def fillImage_tag_def)

lemma fillImage_inv:
  assumes "ui_inv u"
  shows "ui_inv (fst (fillImage url u))"
proof -
  have fb: "fileButton (nodes u) \<noteq> next_id (doc u)"
    using assms by (simp add: ui_inv_def)
  have "ui_inv (u\<lparr>doc := alloc (media_element (css_imageEl (CSS (api u))) url) (doc u)\<rparr>)"
    by (rule ui_inv_alloc [OF assms, where ev = "fillImage_eventName url"])
      (simp_all add: media_element_def new_element_def media_tag_fillImage_tag)
  from ui_inv_cosmetic [OF ui_inv_cosmetic [OF this structural_id_style] structural_id_style]
  show ?thesis
    by (simp add: fillImage_eq [OF fb] set_style_def)
qed

subsection \<open>The readiness listener\<close>

lemma not_ancestor_of_container:
  assumes "parent_of d (Suc 0) = Some 0" and "parent_of d 0 = None" and "c \<noteq> Suc 0" and "c \<noteq> 0"
  shows "\<not> is_ancestor_within k d c (Suc 0)"
proof (cases k)
  case 0
  with assms show ?thesis by simp
next
  case (Suc k')
  with assms show ?thesis by (cases k') simp_all
qed

lemma detach_old_facts:
  assumes inv: "ui_inv u"
  shows "next_id (detach_old u) = next_id (doc u)"
    and "(heap (detach_old u) m = None) = (heap (doc u) m = None)"
    and "children_of (detach_old u) m = (if m = 1 then [3] else children_of (doc u) m)"
    and "parent_of (detach_old u) m = (if 5 \<le> m then None else parent_of (doc u) m)"
    and "listeners_of (detach_old u) m = listeners_of (doc u) m"
    and "tagName_of (detach_old u) m = tagName_of (doc u) m"
    and "dataset_of (detach_old u) m k = dataset_of (doc u) m k"
proof -
  note i = inv [unfolded ui_inv_def]
  have hp: "\<And>m. (heap (doc u) m = None) = (next_id (doc u) \<le> m)" and nx: "5 \<le> next_id (doc u)"
    using i by simp_all
  show "next_id (detach_old u) = next_id (doc u)"
    by (simp add: detach_old_def set_parent_frame set_children_frame split: option.splits)
  show "(heap (detach_old u) m = None) = (heap (doc u) m = None)"
    by (simp add: detach_old_def set_parent_frame set_children_frame split: option.splits)
  show "listeners_of (detach_old u) m = listeners_of (doc u) m"
    by (simp add: detach_old_def set_parent_frame set_children_frame split: option.splits)
  show "tagName_of (detach_old u) m = tagName_of (doc u) m"
    by (simp add: detach_old_def set_parent_frame set_children_frame split: option.splits)
  show "dataset_of (detach_old u) m k = dataset_of (doc u) m k"
    by (simp add: detach_old_def set_parent_frame set_children_frame split: option.splits)
  show "children_of (detach_old u) m = (if m = 1 then [3] else children_of (doc u) m)"
  proof (cases "imageEl (nodes u)")
    case None
    with i show ?thesis by (simp add: detach_old_def media_of_def)
  next
    case (Some old)
    with i have "5 \<le> old" by simp
    with i Some show ?thesis
      by (simp add: detach_old_def set_parent_frame children_of_set_children media_of_def)
  qed
  show "parent_of (detach_old u) m = (if 5 \<le> m then None else parent_of (doc u) m)"
  proof (cases "imageEl (nodes u)")
    case None
    with i show ?thesis by (simp add: detach_old_def)
  next
    case (Some old)
    with i have o: "5 \<le> old" "old < next_id (doc u)" by simp_all
    with i Some show ?thesis
      by (auto simp add: detach_old_def parent_of_set_parent set_children_frame)
  qed
qed

lemma attach_media_facts:
  assumes inv: "ui_inv u" and n: "5 \<le> n" "n < next_id (doc u)"
  shows "next_id (attach_media n u) = next_id (doc u)"
    and "(heap (attach_media n u) m = None) = (heap (doc u) m = None)"
    and "children_of (attach_media n u) m = (if m = 1 then [3, n] else children_of (doc u) m)"
    and "parent_of (attach_media n u) m =
           (if m = n then Some 1 else if 5 \<le> m then None else parent_of (doc u) m)"
    and "listeners_of (attach_media n u) m = listeners_of (doc u) m"
    and "tagName_of (attach_media n u) m = tagName_of (doc u) m"
    and "dataset_of (attach_media n u) m k = dataset_of (doc u) m k"
proof -
  note i = inv [unfolded ui_inv_def]
  note f = detach_old_facts [OF inv]
  have c: "imageContainer (nodes u) = 1" using i by simp
  have hp: "\<And>m. (heap (doc u) m = None) = (next_id (doc u) \<le> m)" and nx: "5 \<le> next_id (doc u)"
    using i by simp_all
  show "next_id (attach_media n u) = next_id (doc u)"
    by (simp add: attach_media_def set_parent_frame set_children_frame f)
  show "(heap (attach_media n u) m = None) = (heap (doc u) m = None)"
    by (simp add: attach_media_def set_parent_frame set_children_frame f)
  show "listeners_of (attach_media n u) m = listeners_of (doc u) m"
    by (simp add: attach_media_def set_parent_frame set_children_frame f)
  show "tagName_of (attach_media n u) m = tagName_of (doc u) m"
    by (simp add: attach_media_def set_parent_frame set_children_frame f)
  show "dataset_of (attach_media n u) m k = dataset_of (doc u) m k"
    by (simp add: attach_media_def set_parent_frame set_children_frame f)
  show "children_of (attach_media n u) m = (if m = 1 then [3, n] else children_of (doc u) m)"
    using nx by (simp add: attach_media_def c set_parent_frame children_of_set_children f hp)
  show "parent_of (attach_media n u) m =
           (if m = n then Some 1 else if 5 \<le> m then None else parent_of (doc u) m)"
    using nx n by (simp add: attach_media_def c parent_of_set_parent set_children_frame f hp)
qed

lemma onMediaReady_eq:
  assumes inv: "ui_inv u" and n: "5 \<le> n" "n < next_id (doc u)"
  shows "onMediaReady n u =
     (u\<lparr>nodes := (nodes u)\<lparr>imageEl := Some n\<rparr>,
        doc := set_style 3 ''backgroundImage'' []
                 (update_node (wrapper (nodes u))
                    (\<lambda>e. e\<lparr>classList := set_state_classes Filled (classList e)\<rparr>)
                    (attach_media n u))\<rparr>, Inr ())"
proof -
  note i = inv [unfolded ui_inv_def]
  note f = detach_old_facts [OF inv]
  have c: "imageContainer (nodes u) = Suc 0" and p: "imagePreloader (nodes u) = Some 3"
    using i by simp_all
  have rm: "(case imageEl (nodes u) of
               Some old \<Rightarrow> removeChild (imageContainer (nodes u)) old (doc u)
             | None \<Rightarrow> Inr (doc u)) = Inr (detach_old u)"
  proof (cases "imageEl (nodes u)")
    case None
    then show ?thesis by (simp add: detach_old_def)
  next
    case (Some old)
    with i have "parent_of (doc u) old = Some 1" by simp
    with Some c show ?thesis by (simp add: removeChild_def detach_old_def)
  qed
  have anc: "\<not> is_ancestor_within (next_id (detach_old u)) (detach_old u) n (Suc 0)"
    using i n by (intro not_ancestor_of_container) (simp_all add: f)
  have pn: "parent_of (detach_old u) n = None"
    using n by (simp add: f)
  have ap: "appendChild (imageContainer (nodes u)) n (detach_old u) = Inr (attach_media n u)"
    using anc pn by (simp add: appendChild_def attach_media_def c Let_def)
  show ?thesis
    by (simp add: onMediaReady_def rm ap toggleStatus_eq p Let_def)
qed

lemma onMediaReady_inv:
  assumes inv: "ui_inv u" and n: "5 \<le> n" "n < next_id (doc u)"
  shows "ui_inv (fst (onMediaReady n u))"
proof -
  note i = inv [unfolded ui_inv_def]
  have "ui_inv (u\<lparr>nodes := (nodes u)\<lparr>imageEl := Some n\<rparr>, doc := attach_media n u\<rparr>)"
    using i n unfolding ui_inv_def
    by (simp add: attach_media_facts [OF inv n] media_of_def)
  from ui_inv_cosmetic [OF ui_inv_cosmetic [OF this structural_id_classList] structural_id_style]
  show ?thesis
    by (simp add: onMediaReady_eq [OF inv n] set_style_def)
qed

subsection \<open>Every operation keeps the invariant\<close>

lemma ui_inv_console [simp]: "ui_inv (u\<lparr>console := c\<rparr>) = ui_inv u"
  by (simp add: ui_inv_def media_of_def)

lemma ui_inv_selectFileCalls [simp]: "ui_inv (u\<lparr>selectFileCalls := k\<rparr>) = ui_inv u"
  by (simp add: ui_inv_def media_of_def)

lemma toggleStatus_inv: "ui_inv u \<Longrightarrow> ui_inv (fst (toggleStatus status u))"
  by (simp add: toggleStatus_eq ui_inv_cosmetic)

lemma applyTune_inv: "ui_inv u \<Longrightarrow> ui_inv (fst (applyTune tuneName status u))"
  by (simp add: applyTune_def ui_inv_cosmetic split: sum.splits)

lemma render_eq:
  "render toolData u =
     (if no_file toolData
      then (fst (toggleStatus Empty (u\<lparr>console := console u @ [toolData]\<rparr>)), Inr (wrapper (nodes u)))
      else (fst (fillImage (file_url toolData) (u\<lparr>console := console u @ [toolData]\<rparr>)),
            Inr (wrapper (nodes u))))"
  by (simp add: render_def no_file_def file_url_def toggleStatus_eq fillImage_def Let_def
      split: option.splits prod.splits)

lemma render_inv: "ui_inv u \<Longrightarrow> ui_inv (fst (render toolData u))"
  by (simp add: render_eq toggleStatus_inv fillImage_inv)

lemma hidePreloader_inv: "ui_inv u \<Longrightarrow> ui_inv (fst (hidePreloader u))"
  by (simp add: hidePreloader_def set_style_def toggleStatus_inv ui_inv_cosmetic split: option.splits)

lemma fillCaption_inv: "ui_inv u \<Longrightarrow> ui_inv (fst (fillCaption text u))"
  by (simp add: fillCaption_def set_innerHTML_def ui_inv_cosmetic split: option.splits)

lemma clearImage_inv: "ui_inv u \<Longrightarrow> ui_inv (fst (clearImage u))"
  by (simp add: clearImage_def set_style_def set_prop_def Let_def ui_inv_cosmetic_eq split: option.splits)

lemma readiness_listener_range:
  assumes inv: "ui_inv u" and r: "readiness_listener u n ev"
  shows "5 \<le> n \<and> n < next_id (doc u)"
proof -
  note i = inv [unfolded ui_inv_def]
  have "\<not> n < 5"
  proof
    assume "n < 5"
    with i have "listeners_of (doc u) n = (if n = 2 then [(''click'', SelectFileClick)] else [])"
      by simp
    with r show False by (simp add: readiness_listener_def split: if_splits)
  qed
  moreover have "n < next_id (doc u)"
  proof (rule ccontr)
    assume "\<not> n < next_id (doc u)"
    with i have "heap (doc u) n = None" by simp
    with r show False by (simp add: readiness_listener_def listeners_of_def)
  qed
  ultimately show ?thesis by simp
qed

lemma dispatchEvent_eq:
  assumes inv: "ui_inv u"
  shows "dispatchEvent n ev u =
     (if readiness_listener u n ev then onMediaReady n u
      else if n = 2 \<and> ev = ''click'' then (u\<lparr>selectFileCalls := Suc (selectFileCalls u)\<rparr>, Inr ())
      else (u, Inr ()))"
proof -
  note i = inv [unfolded ui_inv_def]
  show ?thesis
  proof (cases "n < 5")
    case True
    with i have l: "listeners_of (doc u) n = (if n = 2 then [(''click'', SelectFileClick)] else [])"
      by simp
    then show ?thesis
      by (simp add: dispatchEvent_def readiness_listener_def)
  next
    case False
    show ?thesis
    proof (cases "n < next_id (doc u)")
      case True
      with False i obtain ev' where "listeners_of (doc u) n = [(ev', MediaReady)]"
        by (metis not_less)
      with False show ?thesis
        by (simp add: dispatchEvent_def readiness_listener_def split: sum.splits prod.splits)
    next
      case False
      with i have "heap (doc u) n = None" by simp
      with \<open>\<not> n < 5\<close> show ?thesis
        by (simp add: dispatchEvent_def readiness_listener_def listeners_of_def)
    qed
  qed
qed

lemma dispatchEvent_inv: "ui_inv u \<Longrightarrow> ui_inv (fst (dispatchEvent n ev u))"
  using readiness_listener_range [of u n ev]
  by (simp add: dispatchEvent_eq onMediaReady_inv)

lemma step_inv: "ui_inv u \<Longrightarrow> ui_inv (step operation u)"
  by (cases operation)
    (simp_all add: render_inv hidePreloader_inv fillImage_inv fillCaption_inv clearImage_inv
      applyTune_inv dispatchEvent_inv)

lemma run_append: "run (ops @ ops') u = run ops' (run ops u)"
  by (simp add: run_def)

lemma run_Cons: "run (operation # ops) u = run ops (step operation u)"
  by (simp add: run_def)

lemma run_Nil: "run [] u = u"
  by (simp add: run_def)

lemma run_inv: "ui_inv u \<Longrightarrow> ui_inv (run ops u)"
  by (induction ops arbitrary: u) (simp_all add: run_Nil run_Cons step_inv)

lemma reachable_inv: "ui_inv (run ops (new_Ui icon params))"
  by (simp add: run_inv construct_inv)

lemma attached_media_inv:
  assumes inv: "ui_inv u"
  shows "attached_media u = media_of u"
proof -
  note i = inv [unfolded ui_inv_def]
  have c: "children_of (doc u) (imageContainer (nodes u)) = 3 # media_of u"
    using i by simp
  have t3: "\<not> is_media_tag (tagName_of (doc u) 3)"
    using i by (simp add: is_media_tag_def)
  show ?thesis
  proof (cases "imageEl (nodes u)")
    case None
    with c t3 show ?thesis by (simp add: attached_media_def media_of_def)
  next
    case (Some e)
    with i have "is_media_tag (tagName_of (doc u) e)" by simp
    with c t3 Some show ?thesis by (simp add: attached_media_def media_of_def)
  qed
qed

lemma nodes_toggleStatus: "nodes (fst (toggleStatus status u)) = nodes u"
  by (simp add: toggleStatus_eq)

lemma nodes_fillImage: "nodes (fst (fillImage url u)) = nodes u"
  by (simp add: fillImage_def Let_def split: prod.splits)

lemma nodes_render: "nodes (fst (render toolData u)) = nodes u"
  by (simp add: render_eq nodes_toggleStatus nodes_fillImage)

lemma nodes_hidePreloader: "nodes (fst (hidePreloader u)) = nodes u"
  by (simp add: hidePreloader_def nodes_toggleStatus split: option.splits)

lemma nodes_fillCaption: "nodes (fst (fillCaption text u)) = nodes u"
  by (simp add: fillCaption_def split: option.splits)

lemma nodes_clearImage: "nodes (fst (clearImage u)) = nodes u"
  by (simp add: clearImage_def Let_def split: option.splits)

lemma nodes_applyTune: "nodes (fst (applyTune tuneName status u)) = nodes u"
  by (simp add: applyTune_def split: sum.splits)

lemma nodes_dispatchEvent:
  assumes "ui_inv u"
  shows "nodes (fst (dispatchEvent n ev u)) =
     (if readiness_listener u n ev then (nodes u)\<lparr>imageEl := Some n\<rparr> else nodes u)"
  using readiness_listener_range [OF assms, of n ev]
  by (simp add: dispatchEvent_eq [OF assms] onMediaReady_eq [OF assms])

lemma media_of_step:
  assumes "ui_inv u"
  shows "media_of (step operation u) =
     (case operation of
        Dispatch n ev \<Rightarrow> if readiness_listener u n ev then [n] else media_of u
      | _ \<Rightarrow> media_of u)"
  by (cases operation)
    (simp_all add: media_of_def nodes_render nodes_hidePreloader nodes_fillImage nodes_fillCaption
      nodes_clearImage nodes_applyTune nodes_dispatchEvent [OF assms])

lemma attached_media_step:
  assumes "ui_inv u"
  shows "attached_media (step operation u) =
     (case operation of
        Dispatch n ev \<Rightarrow> if readiness_listener u n ev then [n] else attached_media u
      | _ \<Rightarrow> attached_media u)"
  using media_of_step [OF assms, of operation]
  by (cases operation)
    (simp_all only: attached_media_inv [OF assms] attached_media_inv [OF step_inv [OF assms]])

lemma dispatchEvent_ok:
  assumes "ui_inv u"
  shows "snd (dispatchEvent n ev u) = Inr ()"
  using readiness_listener_range [OF assms, of n ev]
  by (simp add: dispatchEvent_eq [OF assms] onMediaReady_eq [OF assms])

lemma fillImage_new_element:
  assumes inv: "ui_inv u"
  shows "parent_of (doc (fst (fillImage url u))) (next_id (doc u)) = None"
    and "listeners_of (doc (fst (fillImage url u))) (next_id (doc u)) = [(fillImage_eventName url, MediaReady)]"
    and "children_of (doc (fst (fillImage url u))) m = children_of (doc u) m"
proof -
  note i = inv [unfolded ui_inv_def]
  have fb: "fileButton (nodes u) \<noteq> next_id (doc u)"
    using i by simp
  have "next_id (doc u) \<le> next_id (doc u)" by simp
  with i have nn: "heap (doc u) (next_id (doc u)) = None" by blast
  then have cn: "children_of (doc u) (next_id (doc u)) = []" by (simp add: children_of_def)
  show "parent_of (doc (fst (fillImage url u))) (next_id (doc u)) = None"
    by (simp add: fillImage_eq [OF fb] set_style_def keep_of alloc_of media_element_def new_element_def)
  show "listeners_of (doc (fst (fillImage url u))) (next_id (doc u)) = [(fillImage_eventName url, MediaReady)]"
    by (simp add: fillImage_eq [OF fb] set_style_def keep_of alloc_of media_element_def new_element_def)
  show "children_of (doc (fst (fillImage url u))) m = children_of (doc u) m"
    using cn
    by (simp add: fillImage_eq [OF fb] set_style_def keep_of alloc_of media_element_def new_element_def)
qed

text \<open>
  C3: at most one media element is attached to the media container. \<open>fillImage\<close> builds
  the new element off-tree (no parent, not a child of the container) with the readiness
  listener on it; the list of attached media elements changes only when a readiness signal
  is dispatched to an element that listens for it, and then it is exactly that element,
  the previous one being removed in the same step; the listener never raises.
\<close>

theorem at_most_one_media_attached:
  "let u = run ops (new_Ui IconPicture params);
       u1 = step (FillImage url) u;
       tempImageEl = next_id (doc u)
   in length (attached_media u) \<le> 1
    \<and> parent_of (doc u1) tempImageEl = None
    \<and> tempImageEl \<notin> set (children_of (doc u1) (imageContainer (nodes u1)))
    \<and> readiness_listener u1 tempImageEl (fillImage_eventName url)
    \<and> attached_media (step operation u) =
        (case operation of
           Dispatch n ev \<Rightarrow> if readiness_listener u n ev then [n] else attached_media u
         | _ \<Rightarrow> attached_media u)
    \<and> snd (dispatchEvent m ev' u) = Inr ()"
proof -
  define u where "u = run ops (new_Ui IconPicture params)"
  have inv: "ui_inv u"
    by (simp add: u_def reachable_inv)
  note i = inv [unfolded ui_inv_def]
  have a: "length (attached_media u) \<le> 1"
    by (simp add: attached_media_inv [OF inv] media_of_def split: option.splits)
  have c1: "children_of (doc u) (imageContainer (nodes u)) = 3 # media_of u"
    using i by simp
  have "next_id (doc u) \<notin> set (3 # media_of u)"
    using i by (auto simp add: media_of_def split: option.splits)
  then have b: "next_id (doc u) \<notin> set (children_of (doc (step (FillImage url) u))
      (imageContainer (nodes (step (FillImage url) u))))"
    by (simp add: fillImage_new_element [OF inv] nodes_fillImage c1)
  have r: "readiness_listener (step (FillImage url) u) (next_id (doc u)) (fillImage_eventName url)"
    by (simp add: readiness_listener_def fillImage_new_element [OF inv])
  show ?thesis
    unfolding Let_def u_def [symmetric]
    using a b r attached_media_step [OF inv, of operation] dispatchEvent_ok [OF inv, of m ev']
      fillImage_new_element(1) [OF inv, of url]
    by simp
qed

subsection \<open>The class list of the wrapper\<close>

lemma set_token_add: "set (token_add t cl) = insert t (set cl)"
  by (auto simp add: token_add_def)

lemma set_token_remove: "set (token_remove t cl) = set cl - {t}"
  by (auto simp add: token_remove_def)

lemma state_class_inj: "(state_class s = state_class t) = (s = t)"
  by (cases s; cases t) (simp_all add: state_class_def)

lemma state_classes_set_state_classes:
  "filter (\<lambda>t. state_class t \<in> set (set_state_classes s cl)) UiState_keys = [s]"
  by (cases s)
    (simp_all add: set_state_classes_def UiState_keys_def toggle_state_class_def
      set_token_add set_token_remove state_class_inj)

lemma ui_inv_nodes:
  assumes "ui_inv u"
  shows "wrapper (nodes u) = 0" and "imageContainer (nodes u) = 1" and "fileButton (nodes u) = 2"
    and "imagePreloader (nodes u) = Some 3" and "caption (nodes u) = Some 4"
    and "5 \<le> next_id (doc u)"
  using assms by (simp_all add: ui_inv_def)

lemma ui_inv_heap:
  assumes "ui_inv u" and "n < next_id (doc u)"
  shows "\<exists>e. heap (doc u) n = Some e"
proof -
  from assms(1) have "(heap (doc u) n = None) = (next_id (doc u) \<le> n)"
    unfolding ui_inv_def by blast
  with assms(2) show ?thesis by auto
qed

lemma wrapper_exists:
  assumes "ui_inv u"
  shows "\<exists>e. heap (doc u) (wrapper (nodes u)) = Some e"
  using ui_inv_heap [OF assms, of 0] ui_inv_nodes [OF assms] by simp

lemma wrapper_classes_toggleStatus:
  assumes "ui_inv u"
  shows "wrapper_classes (fst (toggleStatus s u)) = set_state_classes s (wrapper_classes u)"
proof -
  from wrapper_exists [OF assms] obtain e where "heap (doc u) (wrapper (nodes u)) = Some e" ..
  then show ?thesis
    by (simp add: wrapper_classes_def toggleStatus_eq classList_of_def heap_update_node)
qed

lemma wrapper_classes_applyTune:
  assumes "ui_inv u"
  shows "wrapper_classes (fst (applyTune tuneName status u)) =
     (case classList_toggle (''image-tool--'' @ tuneName) status (wrapper_classes u) of
        Inl err \<Rightarrow> wrapper_classes u
      | Inr cl \<Rightarrow> cl)"
proof -
  from wrapper_exists [OF assms] obtain e where "heap (doc u) (wrapper (nodes u)) = Some e" ..
  then show ?thesis
    by (simp add: wrapper_classes_def applyTune_def classList_of_def heap_update_node CSS_def
        split: sum.splits)
qed

lemma wrapper_classes_fillImage:
  assumes "ui_inv u"
  shows "wrapper_classes (fst (fillImage url u)) = wrapper_classes u"
proof -
  note i = assms [unfolded ui_inv_def]
  have fb: "fileButton (nodes u) \<noteq> next_id (doc u)" and w: "wrapper (nodes u) \<noteq> next_id (doc u)"
    using i by simp_all
  show ?thesis
    by (simp add: wrapper_classes_def fillImage_eq [OF fb] set_style_def keep_of alloc_of w)
qed

lemma wrapper_classes_onMediaReady:
  assumes inv: "ui_inv u" and n: "5 \<le> n" "n < next_id (doc u)"
  shows "wrapper_classes (fst (onMediaReady n u)) = set_state_classes Filled (wrapper_classes u)"
proof -
  from wrapper_exists [OF inv] obtain e where e: "heap (doc u) (wrapper (nodes u)) = Some e" ..
  have f: "classList_of (attach_media n u) (wrapper (nodes u)) = classList_of (doc u) (wrapper (nodes u))"
    by (simp add: attach_media_def detach_old_def set_parent_frame set_children_frame split: option.splits)
  have "heap (attach_media n u) (wrapper (nodes u)) \<noteq> None"
    using e by (simp add: attach_media_facts [OF inv n])
  then obtain e' where e': "heap (attach_media n u) (wrapper (nodes u)) = Some e'" by auto
  with f e have "classList e' = classList e" by (simp add: classList_of_def)
  with e e' show ?thesis
    by (simp add: wrapper_classes_def onMediaReady_eq [OF inv n] set_style_def keep_of
        classList_of_def heap_update_node ui_inv_nodes(1) [OF inv])
qed

lemma wrapper_classes_step:
  assumes inv: "ui_inv u"
  shows "wrapper_classes (step operation u) =
     (case operation of
        Render toolData \<Rightarrow>
          if no_file toolData then set_state_classes Empty (wrapper_classes u) else wrapper_classes u
      | HidePreloader \<Rightarrow> set_state_classes Empty (wrapper_classes u)
      | ApplyTune tuneName status \<Rightarrow>
          (case classList_toggle (''image-tool--'' @ tuneName) status (wrapper_classes u) of
             Inl err \<Rightarrow> wrapper_classes u
           | Inr cl \<Rightarrow> cl)
      | Dispatch n ev \<Rightarrow>
          if readiness_listener u n ev then set_state_classes Filled (wrapper_classes u)
          else wrapper_classes u
      | _ \<Rightarrow> wrapper_classes u)"
proof (cases operation)
  case (Render toolData)
  have c: "ui_inv (u\<lparr>console := console u @ [toolData]\<rparr>)"
    using inv by simp
  have "wrapper_classes (u\<lparr>console := console u @ [toolData]\<rparr>) = wrapper_classes u"
    by (simp add: wrapper_classes_def)
  with Render show ?thesis
    by (simp add: render_eq wrapper_classes_toggleStatus [OF c] wrapper_classes_fillImage [OF c])
next
  case HidePreloader
  note i = inv [unfolded ui_inv_def]
  have p: "imagePreloader (nodes u) = Some 3"
    using i by simp
  have c: "ui_inv (u\<lparr>doc := set_style 3 ''backgroundImage'' [] (doc u)\<rparr>)"
    using inv by (simp add: set_style_def ui_inv_cosmetic_eq)
  have "wrapper_classes (u\<lparr>doc := set_style 3 ''backgroundImage'' [] (doc u)\<rparr>) = wrapper_classes u"
    by (simp add: wrapper_classes_def set_style_def keep_of)
  with HidePreloader show ?thesis
    by (simp add: hidePreloader_def p wrapper_classes_toggleStatus [OF c])
next
  case (FillImage url)
  then show ?thesis by (simp add: wrapper_classes_fillImage [OF inv])
next
  case (FillCaption t)
  then show ?thesis
    by (simp add: wrapper_classes_def fillCaption_def set_innerHTML_def keep_of split: option.splits)
next
  case ClearImage
  then show ?thesis
    by (simp add: wrapper_classes_def clearImage_def set_style_def set_prop_def keep_of Let_def
        split: option.splits)
next
  case (ApplyTune tuneName status)
  then show ?thesis by (simp add: wrapper_classes_applyTune [OF inv])
next
  case (Dispatch n ev)
  show ?thesis
  proof (cases "readiness_listener u n ev")
    case True
    from readiness_listener_range [OF inv True] have n: "5 \<le> n" "n < next_id (doc u)"
      by simp_all
    from Dispatch True show ?thesis
      by (simp add: dispatchEvent_eq [OF inv] wrapper_classes_onMediaReady [OF inv n])
  next
    case False
    with Dispatch show ?thesis
      by (simp add: dispatchEvent_eq [OF inv] wrapper_classes_def)
  qed
qed


subsection \<open>State modifiers on the wrapper\<close>

lemma state_classes_on_eq:
  "state_classes_on u = filter (\<lambda>t. state_class t \<in> set (wrapper_classes u)) UiState_keys"
  by (simp add: state_classes_on_def wrapper_classes_def)

lemma wrapper_classes_new_Ui:
  "wrapper_classes (new_Ui icon params) =
     fold token_add [block (styles (cp_api params)), ''image-tool''] []"
  by (simp add: wrapper_classes_def new_Ui_def Ui_constructor_def make_def createElement_def
        createFileButton_def empty_document_def appendChild_def Let_def node_of_defs setter_defs
        heap_update_node next_id_update_node new_element_def update_node_def CSS_def)

lemma state_class_not_tune:
  assumes "tuneName \<notin> set (map UiState_value UiState_keys)"
  shows "state_class t \<noteq> ''image-tool--'' @ tuneName"
  using assms by (cases t) (auto simp add: state_class_def UiState_keys_def)

lemma state_classes_on_step:
  assumes inv: "ui_inv u" and nt: "\<not> tune_of_state_name operation"
    and one: "length (state_classes_on u) = 1"
  shows "length (state_classes_on (step operation u)) = 1"
proof (cases operation)
  case (ApplyTune tuneName status)
  with nt have "tuneName \<notin> set (map UiState_value UiState_keys)"
    by (simp add: tune_of_state_name_def)
  from state_class_not_tune [OF this]
  have "\<And>t. (state_class t \<in> set (wrapper_classes (step operation u))) =
            (state_class t \<in> set (wrapper_classes u))"
    by (auto simp add: ApplyTune wrapper_classes_applyTune [OF inv] classList_toggle_def
        set_token_add set_token_remove split: sum.splits if_splits)
  with one show ?thesis
    by (simp add: state_classes_on_eq)
qed (use one in \<open>simp_all add: state_classes_on_eq wrapper_classes_step [OF inv]
      state_classes_set_state_classes del: step.simps\<close>)

lemma state_classes_on_run:
  assumes "ui_inv u" and "list_all (\<lambda>operation. \<not> tune_of_state_name operation) ops"
    and "length (state_classes_on u) = 1"
  shows "length (state_classes_on (run ops u)) = 1"
  using assms
proof (induction ops arbitrary: u)
  case Nil
  then show ?case by (simp add: run_Nil)
next
  case (Cons operation ops)
  from Cons.prems have "length (state_classes_on (step operation u)) = 1"
    by (simp add: state_classes_on_step)
  with Cons.prems Cons.IH [of "step operation u"] show ?case
    by (simp add: run_Cons step_inv)
qed

lemma state_classes_on_sets_state:
  assumes inv: "ui_inv u" and s: "sets_state u operation"
  shows "length (state_classes_on (step operation u)) = 1"
  using s
  by (cases operation)
    (simp_all add: sets_state_def state_classes_on_eq wrapper_classes_step [OF inv]
      state_classes_set_state_classes del: step.simps)

text \<open>
  C4, as amended: once an operation has set the state (\<open>render\<close> of data without a file,
  \<open>hidePreloader\<close>, or a readiness signal on a media element), exactly one of the three
  state modifiers is on the wrapper, and it stays so over every further sequence of
  operations in which \<open>applyTune\<close> is not given one of the state names as tune name.
\<close>

theorem one_state_class_after_transition:
  assumes "sets_state (run ops0 (new_Ui IconPicture params)) op0"
    and "list_all (\<lambda>operation. \<not> tune_of_state_name operation) ops"
  shows "length (state_classes_on (run (ops0 @ op0 # ops) (new_Ui IconPicture params))) = 1"
proof -
  have inv: "ui_inv (run ops0 (new_Ui IconPicture params))"
    by (rule reachable_inv)
  from state_classes_on_sets_state [OF inv assms(1)]
  have "length (state_classes_on (step op0 (run ops0 (new_Ui IconPicture params)))) = 1" .
  from state_classes_on_run [OF step_inv [OF inv] assms(2) this]
  show ?thesis
    by (simp add: run_append run_Cons)
qed

theorem one_state_class_after_transition_witness:
  "sets_state (run [ApplyTune ''empty'' True] (new_Ui example_icon example_params)) HidePreloader
   \<and> list_all (\<lambda>operation. \<not> tune_of_state_name operation) [ApplyTune ''border'' True, ClearImage]
   \<and> length (state_classes_on
        (run ([ApplyTune ''empty'' True] @ HidePreloader # [ApplyTune ''border'' True, ClearImage])
           (new_Ui example_icon example_params))) = 1"
proof -
  have a: "sets_state (run [ApplyTune ''empty'' True] (new_Ui example_icon example_params)) HidePreloader"
    by (simp add: sets_state_def)
  have b: "list_all (\<lambda>operation. \<not> tune_of_state_name operation) [ApplyTune ''border'' True, ClearImage]"
    by (simp add: tune_of_state_name_def UiState_keys_def)
  from one_state_class_after_transition [OF a b] a b show ?thesis
    by blast
qed

theorem state_class_counterexample:
  "state_classes_on (new_Ui example_icon example_params) = []
   \<and> state_classes_on
       (run [Render \<lparr>toolData_file = None, toolData_caption = None\<rparr>, ApplyTune ''filled'' True]
          (new_Ui example_icon example_params)) = [Empty, Filled]"
proof -
  let ?u = "new_Ui example_icon example_params"
  have w0: "wrapper_classes ?u = [''cdx-block'', ''image-tool'']"
    by (simp add: wrapper_classes_new_Ui example_params_def token_add_def)
  have inv0: "ui_inv ?u"
    by (rule construct_inv)
  let ?r = "Render \<lparr>toolData_file = None, toolData_caption = None\<rparr>"
  have w1: "wrapper_classes (step ?r ?u) = [''cdx-block'', ''image-tool'', ''image-tool--empty'']"
    by (simp add: wrapper_classes_step [OF inv0] w0 no_file_def set_state_classes_def
        UiState_keys_def toggle_state_class_def state_class_def token_add_def token_remove_def
        del: step.simps)
  have w2: "wrapper_classes (step (ApplyTune ''filled'' True) (step ?r ?u)) =
      [''cdx-block'', ''image-tool'', ''image-tool--empty'', ''image-tool--filled'']"
    by (simp add: wrapper_classes_step [OF step_inv [OF inv0]] w1 classList_toggle_def
        ascii_whitespace_def token_add_def del: step.simps)
  show ?thesis
    by (simp add: state_classes_on_eq w0 run_Cons run_Nil w2 UiState_keys_def state_class_def
        del: step.simps)
qed

text \<open>
  C5, as amended: when the wrapper's class list does not hold \<open>image-tool--border\<close>,
  \<open>applyTune("border", true)\<close> followed by \<open>applyTune("border", false)\<close> leaves the class
  list, and the whole instance, as it was.
\<close>

theorem applyTune_border_round_trip:
  assumes "''image-tool--border'' \<notin> set (wrapper_classes u)"
  shows "wrapper_classes (run [ApplyTune ''border'' True, ApplyTune ''border'' False] u) =
           wrapper_classes u
         \<and> run [ApplyTune ''border'' True, ApplyTune ''border'' False] u = u"
proof -
  have t: "\<And>b v. applyTune ''border'' b v =
      (v\<lparr>doc := update_node (wrapper (nodes v))
          (\<lambda>e. e\<lparr>classList :=
             (if b then token_add ''image-tool--border'' (classList_of (doc v) (wrapper (nodes v)))
              else token_remove ''image-tool--border'' (classList_of (doc v) (wrapper (nodes v))))\<rparr>)
          (doc v)\<rparr>, Inr ())"
    by (simp add: applyTune_def classList_toggle_def CSS_def ascii_whitespace_def)
  have "run [ApplyTune ''border'' True, ApplyTune ''border'' False] u = u"
  proof (cases "heap (doc u) (wrapper (nodes u))")
    case None
    then show ?thesis
      by (simp add: run_Cons run_Nil t update_node_def)
  next
    case (Some e)
    with assms have "''image-tool--border'' \<notin> set (classList e)"
      by (simp add: wrapper_classes_def classList_of_def)
    then have "token_remove ''image-tool--border'' (token_add ''image-tool--border'' (classList e)) =
        classList e"
      by (simp add: token_add_def token_remove_def)
    with Some show ?thesis
      by (simp add: run_Cons run_Nil t update_node_def classList_of_def map_upd_triv)
  qed
  then show ?thesis by simp
qed

theorem applyTune_border_round_trip_witness:
  "''image-tool--border'' \<notin> set (wrapper_classes (new_Ui example_icon example_params))
   \<and> wrapper_classes (run [ApplyTune ''border'' True, ApplyTune ''border'' False]
        (new_Ui example_icon example_params)) = wrapper_classes (new_Ui example_icon example_params)
   \<and> run [ApplyTune ''border'' True, ApplyTune ''border'' False] (new_Ui example_icon example_params) =
        new_Ui example_icon example_params"
proof -
  have h: "''image-tool--border'' \<notin> set (wrapper_classes (new_Ui example_icon example_params))"
    by (simp add: wrapper_classes_new_Ui example_params_def token_add_def)
  from applyTune_border_round_trip [OF h] h show ?thesis
    by blast
qed

theorem applyTune_border_counterexample:
  "wrapper_classes (run [ApplyTune ''border'' True] (new_Ui example_icon example_params)) =
     [''cdx-block'', ''image-tool'', ''image-tool--border'']
   \<and> wrapper_classes (run [ApplyTune ''border'' True, ApplyTune ''border'' False]
        (run [ApplyTune ''border'' True] (new_Ui example_icon example_params))) =
     [''cdx-block'', ''image-tool'']"
proof -
  let ?u = "new_Ui example_icon example_params"
  have w0: "wrapper_classes ?u = [''cdx-block'', ''image-tool'']"
    by (simp add: wrapper_classes_new_Ui example_params_def token_add_def)
  have inv0: "ui_inv ?u"
    by (rule construct_inv)
  let ?a = "step (ApplyTune ''border'' True) ?u"
  have w1: "wrapper_classes ?a = [''cdx-block'', ''image-tool'', ''image-tool--border'']"
    by (simp add: wrapper_classes_step [OF inv0] w0 classList_toggle_def ascii_whitespace_def
        token_add_def del: step.simps)
  have inv1: "ui_inv ?a"
    by (rule step_inv [OF inv0])
  let ?b = "step (ApplyTune ''border'' True) ?a"
  have w2: "wrapper_classes ?b = [''cdx-block'', ''image-tool'', ''image-tool--border'']"
    by (simp add: wrapper_classes_step [OF inv1] w1 classList_toggle_def ascii_whitespace_def
        token_add_def del: step.simps)
  have inv2: "ui_inv ?b"
    by (rule step_inv [OF inv1])
  have w3: "wrapper_classes (step (ApplyTune ''border'' False) ?b) = [''cdx-block'', ''image-tool'']"
    by (simp add: wrapper_classes_step [OF inv2] w2 classList_toggle_def ascii_whitespace_def
        token_remove_def del: step.simps)
  show ?thesis
    by (simp add: run_Cons run_Nil w1 w3 del: step.simps)
qed


subsection \<open>\<open>render\<close> without a file\<close>

lemma nodes_new_Ui:
  "nodes (new_Ui icon params) =
     \<lparr>wrapper = 0, imageContainer = 1, fileButton = 2, imageEl = None,
      imagePreloader = Some 3, caption = Some 4\<rparr>"
  by (simp add: new_Ui_def Ui_constructor_def make_def createElement_def createFileButton_def
        empty_document_def appendChild_def Let_def node_of_defs setter_defs heap_update_node
        next_id_update_node new_element_def update_node_def CSS_def)

lemma next_id_new_Ui: "next_id (doc (new_Ui icon params)) = 5"
  by (simp add: new_Ui_def Ui_constructor_def make_def createElement_def createFileButton_def
        empty_document_def appendChild_def Let_def node_of_defs setter_defs heap_update_node
        next_id_update_node new_element_def update_node_def CSS_def)

lemma config_new_Ui: "config (new_Ui icon params) = cp_config params"
  by (simp add: new_Ui_def Ui_constructor_def make_def createElement_def createFileButton_def
        empty_document_def appendChild_def Let_def node_of_defs setter_defs heap_update_node
        next_id_update_node new_element_def update_node_def CSS_def)

lemma no_media_new_Ui: "attached_media (new_Ui icon params) = []"
  by (simp add: attached_media_inv [OF construct_inv] media_of_def nodes_new_Ui)

text \<open>
  C1: for tool data whose file descriptor is absent or an empty mapping, \<open>render\<close> returns
  the wrapper, leaves the wrapper with the Empty modifier as its only state modifier,
  attaches no media element and constructs none; on a fresh instance no media element is
  attached afterwards.
\<close>

theorem render_without_file:
  assumes "no_file toolData"
  shows "let u = run ops (new_Ui IconPicture params); r = render toolData u in
           snd r = Inr (wrapper (nodes u))
         \<and> state_classes_on (fst r) = [Empty]
         \<and> attached_media (fst r) = attached_media u
         \<and> nodes (fst r) = nodes u
         \<and> next_id (doc (fst r)) = next_id (doc u)
         \<and> attached_media (fst (render toolData (new_Ui IconPicture params))) = []"
proof -
  define u where "u = run ops (new_Ui IconPicture params)"
  have inv: "ui_inv u"
    by (simp add: u_def reachable_inv)
  have r: "snd (render toolData u) = Inr (wrapper (nodes u))"
    by (simp add: render_eq)
  have s: "state_classes_on (step (Render toolData) u) = [Empty]"
    using assms
    by (simp add: state_classes_on_eq wrapper_classes_step [OF inv] state_classes_set_state_classes
        del: step.simps)
  have m: "attached_media (step (Render toolData) u) = attached_media u"
    by (simp add: attached_media_step [OF inv] del: step.simps)
  have k: "next_id (doc (fst (render toolData u))) = next_id (doc u)"
    using assms by (simp add: render_eq toggleStatus_eq next_id_update_node)
  have "attached_media (step (Render toolData) (new_Ui IconPicture params)) =
      attached_media (new_Ui IconPicture params)"
    by (simp add: attached_media_step [OF construct_inv] del: step.simps)
  then have f: "attached_media (fst (render toolData (new_Ui IconPicture params))) = []"
    by (simp add: no_media_new_Ui)
  from r s m k f show ?thesis
    unfolding Let_def u_def [symmetric] by (simp add: nodes_render)
qed

theorem render_without_file_witness:
  "no_file \<lparr>toolData_file = Some [], toolData_caption = None\<rparr>
   \<and> (let u = run [] (new_Ui example_icon example_params);
          r = render \<lparr>toolData_file = Some [], toolData_caption = None\<rparr> u in
        snd r = Inr (wrapper (nodes u))
      \<and> state_classes_on (fst r) = [Empty]
      \<and> attached_media (fst r) = attached_media u
      \<and> nodes (fst r) = nodes u
      \<and> next_id (doc (fst r)) = next_id (doc u)
      \<and> attached_media (fst (render \<lparr>toolData_file = Some [], toolData_caption = None\<rparr>
           (new_Ui example_icon example_params))) = [])"
proof -
  have h: "no_file \<lparr>toolData_file = Some [], toolData_caption = None\<rparr>"
    by (simp add: no_file_def)
  from h render_without_file [OF h, of "[]" example_icon example_params] show ?thesis
    by (rule conjI)
qed

subsection \<open>\<open>fillImage\<close>: the kind of media\<close>

lemma regexp_mp4_test_suffix: "regexp_mp4_test s = suffix ''.mp4'' s"
proof (induction s)
  case Nil
  show ?case by simp
next
  case (Cons c cs)
  have "(c # cs = ''.mp4'') = (''.mp4'' = c # cs)"
    by (rule eq_commute)
  with Cons show ?case
    by (simp only: regexp_mp4_test.simps suffix_Cons)
qed

text \<open>
  C2: \<open>fillImage\<close> makes a video element exactly when the url ends in \<open>.mp4\<close>, with
  \<open>autoplay\<close>, \<open>loop\<close>, \<open>muted\<close> and \<open>playsinline\<close> set and \<open>loadeddata\<close> as its readiness
  signal, and an image element with \<open>load\<close> as its readiness signal otherwise; the
  element's \<open>src\<close> is the url in both cases. The first four conjuncts are about the tag,
  the attributes and the event name that \<open>fillImage\<close> computes, the others about the
  element in the document afterwards.
\<close>

theorem fillImage_media_kind:
  "let tempImageEl = next_id (doc u); d = doc (fst (fillImage (Str url) u)) in
     (fillImage_tag (Str url) = ''VIDEO'') = suffix ''.mp4'' url
   \<and> fillImage_tag (Str url) = (if suffix ''.mp4'' url then ''VIDEO'' else ''IMG'')
   \<and> fillImage_attributes (Str url) =
       (if suffix ''.mp4'' url
        then [(''src'', Str url), (''autoplay'', Bool True), (''loop'', Bool True),
              (''muted'', Bool True), (''playsinline'', Bool True)]
        else [(''src'', Str url)])
   \<and> fillImage_eventName (Str url) = (if suffix ''.mp4'' url then ''loadeddata'' else ''load'')
   \<and> (tagName_of d tempImageEl = ''VIDEO'') = suffix ''.mp4'' url
   \<and> tagName_of d tempImageEl = (if suffix ''.mp4'' url then ''VIDEO'' else ''IMG'')
   \<and> prop_of d tempImageEl ''src'' = Str url
   \<and> map (prop_of d tempImageEl) [''autoplay'', ''loop'', ''muted'', ''playsinline''] =
       (if suffix ''.mp4'' url then [Bool True, Bool True, Bool True, Bool True]
        else [Undefined, Undefined, Undefined, Undefined])
   \<and> listeners_of d tempImageEl =
       [(if suffix ''.mp4'' url then ''loadeddata'' else ''load'', MediaReady)]"
  by (simp add: fillImage_def make_def createElement_alloc update_node_alloc Let_def setter_defs
      node_of_defs heap_update_node alloc_def new_element_def fillImage_tag_def
      fillImage_attributes_def fillImage_eventName_def regexp_mp4_test_suffix)


subsection \<open>Styles, properties and markup\<close>

lemma style_of_set_style:
  "style_of (set_style n k v d) m k' =
     (if m = n \<and> k' = k \<and> heap d n \<noteq> None then v else style_of d m k')"
  by (cases "heap d n") (auto simp add: set_style_def style_of_def heap_update_node)

lemma prop_of_set_prop:
  "prop_of (set_prop n k v d) m k' =
     (if m = n \<and> k' = k \<and> heap d n \<noteq> None then v else prop_of d m k')"
  by (cases "heap d n") (auto simp add: set_prop_def prop_of_def heap_update_node)

lemma innerHTML_of_set_innerHTML:
  "innerHTML_of (set_innerHTML n t d) m =
     (if m = n \<and> heap d n \<noteq> None then t else innerHTML_of d m)"
  by (cases "heap d n") (auto simp add: set_innerHTML_def innerHTML_of_def heap_update_node)

lemma set_style_frame:
  "next_id (set_style n k v d) = next_id d"
  "(heap (set_style n k v d) m = None) = (heap d m = None)"
  "children_of (set_style n k v d) m = children_of d m"
  "parent_of (set_style n k v d) m = parent_of d m"
  "listeners_of (set_style n k v d) m = listeners_of d m"
  "tagName_of (set_style n k v d) m = tagName_of d m"
  "classList_of (set_style n k v d) m = classList_of d m"
  "prop_of (set_style n k v d) m k'' = prop_of d m k''"
  "m \<noteq> n \<Longrightarrow> heap (set_style n k v d) m = heap d m"
  by (simp_all add: set_style_def keep_of next_id_update_node heap_None_update_node heap_update_node)

lemma set_prop_frame:
  "next_id (set_prop n k v d) = next_id d"
  "(heap (set_prop n k v d) m = None) = (heap d m = None)"
  "children_of (set_prop n k v d) m = children_of d m"
  "parent_of (set_prop n k v d) m = parent_of d m"
  "listeners_of (set_prop n k v d) m = listeners_of d m"
  "tagName_of (set_prop n k v d) m = tagName_of d m"
  "classList_of (set_prop n k v d) m = classList_of d m"
  "style_of (set_prop n k v d) m k' = style_of d m k'"
  by (simp_all add: set_prop_def keep_of next_id_update_node heap_None_update_node)

lemma style_of_attach_media:
  "style_of (attach_media n u) m k = style_of (doc u) m k"
  by (simp add: attach_media_def detach_old_def set_parent_frame set_children_frame
      split: option.splits)

lemma heap_defined:
  assumes "ui_inv u" and "n < next_id (doc u)"
  shows "heap (doc u) n \<noteq> None"
  using ui_inv_heap [OF assms] by auto

subsection \<open>\<open>clearImage\<close>\<close>

text \<open>
  C6: when a media element is attached, \<open>clearImage\<close> empties its \<open>src\<close>, hides it, shows
  the file button and makes it interactive, and the element stays attached to the media
  container; when none is attached, \<open>clearImage\<close> changes nothing. It never raises.
\<close>

theorem clearImage_keeps_node:
  "let u = run ops (new_Ui IconPicture params); r = clearImage u; u' = fst r in
     snd r = Inr ()
   \<and> (case attached_media u of
        [] \<Rightarrow> u' = u
      | imageElement # rest \<Rightarrow>
          prop_of (doc u') imageElement ''src'' = Str []
        \<and> style_of (doc u') imageElement ''display'' = ''none''
        \<and> style_of (doc u') (fileButton (nodes u')) ''display'' = ''flex''
        \<and> style_of (doc u') (fileButton (nodes u')) ''pointerEvents'' = ''auto''
        \<and> attached_media u' = [imageElement]
        \<and> parent_of (doc u') imageElement = Some (imageContainer (nodes u'))
        \<and> imageEl (nodes u') = Some imageElement)"
proof -
  define u where "u = run ops (new_Ui IconPicture params)"
  have inv: "ui_inv u"
    by (simp add: u_def reachable_inv)
  note i = inv [unfolded ui_inv_def]
  note nd = ui_inv_nodes [OF inv]
  have ok: "snd (clearImage u) = Inr ()"
    by (simp add: clearImage_def Let_def split: option.splits)
  have body: "case attached_media u of
        [] \<Rightarrow> fst (clearImage u) = u
      | imageElement # rest \<Rightarrow>
          prop_of (doc (fst (clearImage u))) imageElement ''src'' = Str []
        \<and> style_of (doc (fst (clearImage u))) imageElement ''display'' = ''none''
        \<and> style_of (doc (fst (clearImage u))) (fileButton (nodes (fst (clearImage u)))) ''display'' = ''flex''
        \<and> style_of (doc (fst (clearImage u))) (fileButton (nodes (fst (clearImage u)))) ''pointerEvents'' = ''auto''
        \<and> attached_media (fst (clearImage u)) = [imageElement]
        \<and> parent_of (doc (fst (clearImage u))) imageElement = Some (imageContainer (nodes (fst (clearImage u))))
        \<and> imageEl (nodes (fst (clearImage u))) = Some imageElement"
  proof (cases "imageEl (nodes u)")
    case None
    then show ?thesis
      by (simp add: attached_media_inv [OF inv] media_of_def clearImage_def)
  next
    case (Some e)
    with i have e: "5 \<le> e" "e < next_id (doc u)" by simp_all
    have he: "heap (doc u) e \<noteq> None"
      by (rule heap_defined [OF inv e(2)])
    have hb: "heap (doc u) 2 \<noteq> None"
      using nd by (intro heap_defined [OF inv]) simp
    have pe: "parent_of (doc u) e = Some 1"
      using i Some e by simp
    have inv': "ui_inv (fst (clearImage u))"
      by (rule clearImage_inv [OF inv])
    have n': "nodes (fst (clearImage u)) = nodes u"
      by (rule nodes_clearImage)
    have m': "attached_media (fst (clearImage u)) = [e]"
      by (simp add: attached_media_inv [OF inv'] media_of_def n' Some)
    have d': "doc (fst (clearImage u)) =
        set_style 2 ''pointerEvents'' ''auto''
          (set_style 2 ''display'' ''flex''
            (set_style e ''display'' ''none'' (set_prop e ''src'' (Str []) (doc u))))"
      by (simp add: clearImage_def Some Let_def nd)
    from e he hb pe Some show ?thesis
      by (simp add: attached_media_inv [OF inv] media_of_def m' n' nd d' style_of_set_style
          prop_of_set_prop set_style_frame set_prop_frame)
  qed
  from ok body show ?thesis
    unfolding Let_def u_def [symmetric] by simp
qed


subsection \<open>The file button under \<open>fillImage\<close>\<close>

lemma style_of_dispatchEvent_fileButton:
  assumes inv: "ui_inv u"
  shows "style_of (doc (fst (dispatchEvent n ev u))) 2 k = style_of (doc u) 2 k"
proof (cases "readiness_listener u n ev")
  case True
  from readiness_listener_range [OF inv True] have n: "5 \<le> n" "n < next_id (doc u)"
    by simp_all
  from True show ?thesis
    by (simp add: dispatchEvent_eq [OF inv] onMediaReady_eq [OF inv n] style_of_set_style keep_of
        style_of_attach_media)
next
  case False
  then show ?thesis
    by (simp add: dispatchEvent_eq [OF inv])
qed

text \<open>
  C7: \<open>fillImage\<close> itself hides the file button and makes it non-interactive: this holds
  in the state it returns, in which no media element has been swapped in yet, and it still
  holds after any event is dispatched, whether or not it is the readiness signal.
\<close>

theorem fillImage_hides_button:
  "let u = run ops (new_Ui IconPicture params);
       u1 = fst (fillImage url u);
       u2 = step (Dispatch n ev) u1;
       button_el = fileButton (nodes u)
   in snd (fillImage url u) = Inr ()
    \<and> fileButton (nodes u1) = button_el
    \<and> style_of (doc u1) button_el ''display'' = ''none''
    \<and> style_of (doc u1) button_el ''pointerEvents'' = ''none''
    \<and> attached_media u1 = attached_media u
    \<and> parent_of (doc u1) button_el = Some (wrapper (nodes u1))
    \<and> fileButton (nodes u2) = button_el
    \<and> style_of (doc u2) button_el ''display'' = ''none''
    \<and> style_of (doc u2) button_el ''pointerEvents'' = ''none''"
proof -
  define u where "u = run ops (new_Ui IconPicture params)"
  define u1 where "u1 = fst (fillImage url u)"
  have inv: "ui_inv u"
    by (simp add: u_def reachable_inv)
  note nd = ui_inv_nodes [OF inv]
  have inv1: "ui_inv u1"
    unfolding u1_def by (rule fillImage_inv [OF inv])
  note nd1 = ui_inv_nodes [OF inv1]
  have inv2: "ui_inv (step (Dispatch n ev) u1)"
    by (rule step_inv [OF inv1])
  note nd2 = ui_inv_nodes [OF inv2]
  have fb: "fileButton (nodes u) \<noteq> next_id (doc u)"
    using nd by simp
  have hb: "heap (alloc (media_element (css_imageEl (CSS (api u))) url) (doc u)) 2 \<noteq> None"
    using heap_defined [OF inv, of 2] nd by (simp add: alloc_of)
  have s1: "style_of (doc u1) 2 ''display'' = ''none''"
    and s2: "style_of (doc u1) 2 ''pointerEvents'' = ''none''"
    using hb
    by (simp_all add: u1_def fillImage_eq [OF fb] nd style_of_set_style set_style_frame)
  have m: "attached_media (step (FillImage url) u) = attached_media u"
    by (simp add: attached_media_step [OF inv] del: step.simps)
  have p: "parent_of (doc u1) 2 = Some 0"
    using inv1 by (simp add: ui_inv_def)
  have "snd (fillImage url u) = Inr ()"
    by (simp add: fillImage_eq [OF fb])
  with s1 s2 m p show ?thesis
    unfolding Let_def u_def [symmetric] u1_def [symmetric]
    using nd nd1 nd2
    by (simp add: style_of_dispatchEvent_fileButton [OF inv1] u1_def [symmetric])
qed

subsection \<open>\<open>hidePreloader\<close>\<close>

lemma with_placeholder_eq:
  assumes "ui_inv u"
  shows "with_placeholder bg u = u\<lparr>doc := set_style 3 ''backgroundImage'' bg (doc u)\<rparr>"
  by (simp add: with_placeholder_def ui_inv_nodes [OF assms])

lemma with_placeholder_inv:
  assumes "ui_inv u"
  shows "ui_inv (with_placeholder bg u)"
  using assms by (simp add: with_placeholder_eq [OF assms] set_style_def ui_inv_cosmetic_eq)

lemma preloader_background_with_placeholder:
  assumes "ui_inv u"
  shows "preloader_background (with_placeholder bg u) = Some bg"
proof -
  have "heap (doc u) 3 \<noteq> None"
    using ui_inv_nodes [OF assms] by (intro heap_defined [OF assms]) simp
  then show ?thesis
    by (simp add: preloader_background_def with_placeholder_eq [OF assms] ui_inv_nodes [OF assms]
        style_of_set_style)
qed

lemma with_placeholder_frame:
  "attached_media (with_placeholder bg u) = attached_media u"
  "prop_of (doc (with_placeholder bg u)) m k = prop_of (doc u) m k"
  by (simp_all add: with_placeholder_def attached_media_def set_style_frame split: option.splits)

lemma with_placeholder_new_Ui:
  "with_placeholder [] (new_Ui icon params) = new_Ui icon params"
proof -
  let ?u = "new_Ui icon params"
  have h: "heap (doc ?u) 3 =
      Some ((new_element ''div'')\<lparr>classList := [''image-tool__image-preloader''], parent := Some 1\<rparr>)"
    by (simp add: new_Ui_def Ui_constructor_def make_def createElement_def createFileButton_def
        empty_document_def appendChild_def Let_def node_of_defs setter_defs heap_update_node
        next_id_update_node new_element_def update_node_def CSS_def token_add_def)
  have "set_style 3 ''backgroundImage'' [] (doc ?u) = doc ?u"
    by (simp add: set_style_def update_node_def h new_element_def map_upd_triv)
  then show ?thesis
    by (simp add: with_placeholder_eq [OF construct_inv])
qed

text \<open>
  C8: whatever placeholder \<open>bg\<close> the preloader has been given, at any point of a run,
  \<open>hidePreloader\<close> leaves the preloader without a background image and the wrapper with
  the Empty modifier as its only state modifier; the media element that is attached, if
  any, stays attached and its node is unchanged, source included. It does not raise. An
  empty placeholder on a new instance is the new instance, so the runs without a
  placeholder are among those of the statement.
\<close>

theorem hidePreloader_keeps_media:
  "let u = run ops (new_Ui IconPicture params);
       v = run ops' (with_placeholder bg u);
       r = hidePreloader v;
       u' = fst r
   in preloader_background (with_placeholder bg u) = Some bg
    \<and> snd r = Inr ()
    \<and> preloader_background u' = Some []
    \<and> state_classes_on u' = [Empty]
    \<and> attached_media u' = attached_media v
    \<and> map (heap (doc u')) (attached_media v) = map (heap (doc v)) (attached_media v)
    \<and> map (\<lambda>e. prop_of (doc u') e ''src'') (attached_media v) =
        map (\<lambda>e. prop_of (doc v) e ''src'') (attached_media v)
    \<and> with_placeholder [] (new_Ui IconPicture params) = new_Ui IconPicture params"
proof -
  define u where "u = run ops (new_Ui IconPicture params)"
  define v where "v = run ops' (with_placeholder bg u)"
  have inv_u: "ui_inv u"
    by (simp add: u_def reachable_inv)
  have inv: "ui_inv v"
    unfolding v_def by (rule run_inv [OF with_placeholder_inv [OF inv_u]])
  note i = inv [unfolded ui_inv_def]
  note nd = ui_inv_nodes [OF inv]
  have pb: "preloader_background (with_placeholder bg u) = Some bg"
    by (rule preloader_background_with_placeholder [OF inv_u])
  have eq: "hidePreloader v =
      (v\<lparr>doc := update_node 0 (\<lambda>e. e\<lparr>classList := set_state_classes Empty (classList e)\<rparr>)
                  (set_style 3 ''backgroundImage'' [] (doc v))\<rparr>, Inr ())"
    by (simp add: hidePreloader_def nd toggleStatus_eq)
  have h3: "heap (doc v) 3 \<noteq> None"
    using nd by (intro heap_defined [OF inv]) simp
  have bg: "preloader_background (fst (hidePreloader v)) = Some []"
    using h3 by (simp add: preloader_background_def eq nd keep_of style_of_set_style)
  have s: "state_classes_on (step HidePreloader v) = [Empty]"
    by (simp add: state_classes_on_eq wrapper_classes_step [OF inv] state_classes_set_state_classes
        del: step.simps)
  have m: "attached_media (step HidePreloader v) = attached_media v"
    by (simp add: attached_media_step [OF inv] del: step.simps)
  have hp: "\<And>e. e \<in> set (attached_media v) \<Longrightarrow> heap (doc (fst (hidePreloader v))) e = heap (doc v) e"
  proof -
    fix e
    assume "e \<in> set (attached_media v)"
    then have "imageEl (nodes v) = Some e"
      by (simp add: attached_media_inv [OF inv] media_of_def split: option.splits)
    with i have "5 \<le> e" by simp
    then show "heap (doc (fst (hidePreloader v))) e = heap (doc v) e"
      by (simp add: eq heap_update_node set_style_frame)
  qed
  then have hm: "map (heap (doc (fst (hidePreloader v)))) (attached_media v) =
      map (heap (doc v)) (attached_media v)"
    by simp
  from hp have pm: "map (\<lambda>e. prop_of (doc (fst (hidePreloader v))) e ''src'') (attached_media v) =
      map (\<lambda>e. prop_of (doc v) e ''src'') (attached_media v)"
    by (simp add: prop_of_def)
  have ok: "snd (hidePreloader v) = Inr ()"
    by (simp add: eq)
  from pb ok bg s m hm pm show ?thesis
    unfolding Let_def u_def [symmetric] v_def [symmetric]
    by (simp add: with_placeholder_new_Ui)
qed


subsection \<open>The caption\<close>

lemma config_step: "config (step operation u) = config u"
proof (cases operation)
  case (Dispatch n ev)
  have "\<And>ls v. config (fst (run_listeners ls n v)) = config v"
  proof -
    fix ls v
    show "config (fst (run_listeners ls n v)) = config v"
    proof (induction ls arbitrary: v)
      case Nil
      show ?case by simp
    next
      case (Cons l ls)
      have "config (fst (run_listener l n v)) = config v"
        by (cases l)
          (simp_all add: onMediaReady_def toggleStatus_eq Let_def
            split: sum.splits option.splits prod.splits)
      with Cons show ?case
        by (simp split: prod.splits sum.splits) (metis fst_conv)
    qed
  qed
  with Dispatch show ?thesis
    by (simp add: dispatchEvent_def)
qed (simp_all add: render_eq toggleStatus_eq fillImage_def hidePreloader_def fillCaption_def
    clearImage_def applyTune_def Let_def split: option.splits prod.splits sum.splits)

lemma config_run: "config (run ops u) = config u"
  by (induction ops arbitrary: u) (simp_all add: run_Nil run_Cons config_step del: step.simps)

lemma contains_range:
  assumes inv: "ui_inv u" and c: "contains (doc u) 0 n"
  shows "n < 4 \<or> n \<in> set (media_of u)"
  using c
proof (induction rule: contains.induct)
  case contains_self
  show ?case by simp
next
  case (contains_child p c)
  note i = inv [unfolded ui_inv_def]
  show ?case
  proof (cases "p = 0")
    case True
    with i contains_child.hyps(2) show ?thesis by auto
  next
    case False
    show ?thesis
    proof (cases "p = 1")
      case True
      with i contains_child.hyps(2) show ?thesis by auto
    next
      case False
      with \<open>p \<noteq> 0\<close> have "2 \<le> p" by simp
      with i have "children_of (doc u) p = []" by simp
      with contains_child.hyps(2) show ?thesis by simp
    qed
  qed
qed

lemma caption_not_contained:
  assumes inv: "ui_inv u"
  shows "\<not> contains (doc u) 0 4"
proof
  assume "contains (doc u) 0 4"
  from contains_range [OF inv this] have "4 \<in> set (media_of u)"
    by simp
  then have "imageEl (nodes u) = Some 4"
    by (simp add: media_of_def split: option.splits)
  with inv show False
    by (auto simp add: ui_inv_def)
qed

text \<open>
  C9: \<open>fillCaption\<close> never raises; when the instance has no caption element it changes
  nothing; when it has one, the element's markup is the given text afterwards, and every
  instance reachable from the constructor has one.
\<close>

theorem fillCaption_sets_content:
  "snd (fillCaption t v) = Inr ()
   \<and> (caption (nodes v) = None \<longrightarrow> fst (fillCaption t v) = v)
   \<and> (caption (nodes w) = Some c \<and> heap (doc w) c \<noteq> None \<longrightarrow>
        innerHTML_of (doc (fst (fillCaption t w))) c = t)
   \<and> (let u = run ops (new_Ui IconPicture params) in
        map_option (innerHTML_of (doc (fst (fillCaption t u)))) (caption (nodes u)) = Some t)"
proof -
  define u where "u = run ops (new_Ui IconPicture params)"
  have inv: "ui_inv u"
    by (simp add: u_def reachable_inv)
  note nd = ui_inv_nodes [OF inv]
  have h4: "heap (doc u) 4 \<noteq> None"
    using nd by (intro heap_defined [OF inv]) simp
  have a: "snd (fillCaption t v) = Inr ()"
    by (simp add: fillCaption_def split: option.splits)
  have b: "caption (nodes v) = None \<longrightarrow> fst (fillCaption t v) = v"
    by (simp add: fillCaption_def)
  have c: "caption (nodes w) = Some c \<and> heap (doc w) c \<noteq> None \<longrightarrow>
        innerHTML_of (doc (fst (fillCaption t w))) c = t"
    by (simp add: fillCaption_def innerHTML_of_set_innerHTML)
  have d: "map_option (innerHTML_of (doc (fst (fillCaption t u)))) (caption (nodes u)) = Some t"
    using h4 by (simp add: fillCaption_def nd innerHTML_of_set_innerHTML)
  from a b c d show ?thesis
    unfolding Let_def u_def [symmetric] by simp
qed

theorem fillCaption_sets_content_witness:
  "caption (nodes ((new_Ui example_icon example_params)
      \<lparr>nodes := (nodes (new_Ui example_icon example_params))\<lparr>caption := None\<rparr>\<rparr>)) = None
   \<and> fst (fillCaption ''A caption''
        ((new_Ui example_icon example_params)
           \<lparr>nodes := (nodes (new_Ui example_icon example_params))\<lparr>caption := None\<rparr>\<rparr>)) =
       (new_Ui example_icon example_params)
         \<lparr>nodes := (nodes (new_Ui example_icon example_params))\<lparr>caption := None\<rparr>\<rparr>
   \<and> caption (nodes (new_Ui example_icon example_params)) = Some 4
   \<and> heap (doc (new_Ui example_icon example_params)) 4 \<noteq> None
   \<and> innerHTML_of (doc (fst (fillCaption ''A caption'' (new_Ui example_icon example_params)))) 4 =
       ''A caption''"
proof -
  let ?w = "new_Ui example_icon example_params"
  let ?v = "?w\<lparr>nodes := (nodes ?w)\<lparr>caption := None\<rparr>\<rparr>"
  have a: "caption (nodes ?v) = None"
    by simp
  have b: "caption (nodes ?w) = Some 4"
    by (simp add: nodes_new_Ui)
  have c: "heap (doc ?w) 4 \<noteq> None"
    by (rule heap_defined [OF construct_inv]) (simp add: next_id_new_Ui)
  from fillCaption_sets_content [of "''A caption''" ?v ?w 4 "[]" example_icon example_params] a b c
  show ?thesis
    by blast
qed

text \<open>
  C10: in every instance reachable from the constructor the caption element exists, has
  the configured placeholder, has no parent and is not contained in the wrapper, the
  element that \<open>render\<close> returns; \<open>fillCaption\<close> changes no node that the wrapper
  contains, and the caption is not contained in the wrapper after it either.
\<close>

theorem caption_never_attached:
  "let u = run ops (new_Ui IconPicture params); u' = fst (fillCaption t u) in
     (case caption (nodes u) of
        None \<Rightarrow> False
      | Some c \<Rightarrow>
          dataset_of (doc u) c ''placeholder'' = Some (captionPlaceholder (cp_config params))
        \<and> parent_of (doc u) c = None
        \<and> \<not> contains (doc u) (wrapper (nodes u)) c
        \<and> snd (render toolData u) = Inr (wrapper (nodes u))
        \<and> \<not> contains (doc (fst (render toolData u))) (wrapper (nodes u)) c
        \<and> (contains (doc u) (wrapper (nodes u)) n \<longrightarrow> heap (doc u') n = heap (doc u) n)
        \<and> \<not> contains (doc u') (wrapper (nodes u')) c)"
proof -
  define u where "u = run ops (new_Ui IconPicture params)"
  have inv: "ui_inv u"
    by (simp add: u_def reachable_inv)
  note i = inv [unfolded ui_inv_def]
  note nd = ui_inv_nodes [OF inv]
  have cfg: "config u = cp_config params"
    by (simp add: u_def config_run config_new_Ui)
  have a: "dataset_of (doc u) 4 ''placeholder'' = Some (captionPlaceholder (cp_config params))"
    using i cfg by simp
  have b: "parent_of (doc u) 4 = None"
    using i by simp
  have c: "\<not> contains (doc u) 0 4"
    by (rule caption_not_contained [OF inv])
  have d: "\<not> contains (doc (step (Render toolData) u)) 0 4"
    by (rule caption_not_contained [OF step_inv [OF inv]])
  have e: "\<not> contains (doc (step (FillCaption t) u)) 0 4"
    by (rule caption_not_contained [OF step_inv [OF inv]])
  have f: "contains (doc u) 0 n \<longrightarrow> heap (doc (fst (fillCaption t u))) n = heap (doc u) n"
  proof
    assume "contains (doc u) 0 n"
    from contains_range [OF inv this] i have "n \<noteq> 4"
      by (auto simp add: media_of_def split: option.splits)
    then show "heap (doc (fst (fillCaption t u))) n = heap (doc u) n"
      by (simp add: fillCaption_def nd set_innerHTML_def heap_update_node)
  qed
  from a b c d e f show ?thesis
    unfolding Let_def u_def [symmetric]
    by (simp add: nd render_eq nodes_fillCaption)
qed

theorem caption_never_attached_witness:
  "contains (doc (new_Ui example_icon example_params)) 0 0
   \<and> heap (doc (fst (fillCaption ''A caption'' (new_Ui example_icon example_params)))) 0 =
       heap (doc (new_Ui example_icon example_params)) 0
   \<and> \<not> contains (doc (new_Ui example_icon example_params)) 0 4"
  using caption_never_attached [of "[]" example_icon example_params "''A caption''"
      "\<lparr>toolData_file = None, toolData_caption = None\<rparr>" 0]
    contains_self [of "doc (new_Ui example_icon example_params)" 0]
  by (simp add: Let_def run_Nil nodes_new_Ui)


subsection \<open>An instance with a loaded image\<close>

lemma prop_of_attach_media:
  "prop_of (attach_media n u) m k = prop_of (doc u) m k"
  by (simp add: attach_media_def detach_old_def set_parent_frame set_children_frame
      split: option.splits)

lemma loaded_instance:
  fixes icon params url
  defines "u \<equiv> run [FillImage url, Dispatch 5 (fillImage_eventName url)] (new_Ui icon params)"
  shows "attached_media u = [5]" and "prop_of (doc u) 5 ''src'' = url"
proof -
  let ?u0 = "new_Ui icon params"
  let ?u1 = "fst (fillImage url ?u0)"
  let ?ev = "fillImage_eventName url"
  have inv0: "ui_inv ?u0"
    by (rule construct_inv)
  have inv1: "ui_inv ?u1"
    by (rule fillImage_inv [OF inv0])
  have u: "u = fst (dispatchEvent 5 ?ev ?u1)"
    by (simp add: u_def run_Cons run_Nil)
  have n1: "5 < next_id (doc ?u1)"
    by (simp add: fillImage_eq nodes_new_Ui next_id_new_Ui set_style_frame alloc_of)
  have "listeners_of (doc ?u1) 5 = [(?ev, MediaReady)]"
    using fillImage_new_element(2) [OF inv0, of url] by (simp add: next_id_new_Ui)
  then have r: "readiness_listener ?u1 5 ?ev"
    by (simp add: readiness_listener_def)
  from attached_media_step [OF inv1, of "Dispatch 5 ?ev"] r
  show "attached_media u = [5]"
    by (simp add: u)
  have p1: "prop_of (doc ?u1) 5 ''src'' = url"
    by (simp add: fillImage_eq nodes_new_Ui next_id_new_Ui set_style_frame prop_of_def alloc_def
        media_element_def new_element_def fillImage_attributes_def)
  have five: "(5::nat) \<le> 5"
    by simp
  have "prop_of (doc (fst (dispatchEvent 5 ?ev ?u1))) 5 ''src'' = prop_of (doc ?u1) 5 ''src''"
    using r
    by (simp add: dispatchEvent_eq [OF inv1] onMediaReady_eq [OF inv1 five n1] set_style_frame
        keep_of prop_of_attach_media)
  with p1 show "prop_of (doc u) 5 ''src'' = url"
    by (simp add: u)
qed

theorem clearImage_keeps_node_witness:
  "attached_media
     (run [FillImage (Str ''https://x/a.png''), Dispatch 5 ''load'']
        (new_Ui example_icon example_params)) = [5]
   \<and> prop_of (doc (run [FillImage (Str ''https://x/a.png''), Dispatch 5 ''load'']
        (new_Ui example_icon example_params))) 5 ''src'' = Str ''https://x/a.png''
   \<and> snd (clearImage (run [FillImage (Str ''https://x/a.png''), Dispatch 5 ''load'']
        (new_Ui example_icon example_params))) = Inr ()
   \<and> prop_of (doc (fst (clearImage (run [FillImage (Str ''https://x/a.png''), Dispatch 5 ''load'']
        (new_Ui example_icon example_params))))) 5 ''src'' = Str []
   \<and> style_of (doc (fst (clearImage (run [FillImage (Str ''https://x/a.png''), Dispatch 5 ''load'']
        (new_Ui example_icon example_params))))) 5 ''display'' = ''none''
   \<and> attached_media (fst (clearImage (run [FillImage (Str ''https://x/a.png''), Dispatch 5 ''load'']
        (new_Ui example_icon example_params)))) = [5]"
proof -
  have ev: "fillImage_eventName (Str ''https://x/a.png'') = ''load''"
    by (simp add: fillImage_eventName_def fillImage_tag_def)
  note l = loaded_instance [of "Str ''https://x/a.png''" example_icon example_params, unfolded ev]
  from clearImage_keeps_node
    [of "[FillImage (Str ''https://x/a.png''), Dispatch 5 ''load'']" example_icon example_params] l
  show ?thesis
    by (simp add: Let_def)
qed

theorem hidePreloader_keeps_media_witness:
  "attached_media
     (with_placeholder ''url(preview.png)''
        (run [FillImage (Str ''https://x/b.mp4''), Dispatch 5 ''loadeddata'']
           (new_Ui example_icon example_params))) = [5]
   \<and> prop_of (doc (with_placeholder ''url(preview.png)''
        (run [FillImage (Str ''https://x/b.mp4''), Dispatch 5 ''loadeddata'']
           (new_Ui example_icon example_params)))) 5 ''src'' = Str ''https://x/b.mp4''
   \<and> preloader_background (with_placeholder ''url(preview.png)''
        (run [FillImage (Str ''https://x/b.mp4''), Dispatch 5 ''loadeddata'']
           (new_Ui example_icon example_params))) = Some ''url(preview.png)''
   \<and> snd (hidePreloader (with_placeholder ''url(preview.png)''
        (run [FillImage (Str ''https://x/b.mp4''), Dispatch 5 ''loadeddata'']
           (new_Ui example_icon example_params)))) = Inr ()
   \<and> preloader_background (fst (hidePreloader (with_placeholder ''url(preview.png)''
        (run [FillImage (Str ''https://x/b.mp4''), Dispatch 5 ''loadeddata'']
           (new_Ui example_icon example_params))))) = Some []
   \<and> state_classes_on (fst (hidePreloader (with_placeholder ''url(preview.png)''
        (run [FillImage (Str ''https://x/b.mp4''), Dispatch 5 ''loadeddata'']
           (new_Ui example_icon example_params))))) = [Empty]
   \<and> attached_media (fst (hidePreloader (with_placeholder ''url(preview.png)''
        (run [FillImage (Str ''https://x/b.mp4''), Dispatch 5 ''loadeddata'']
           (new_Ui example_icon example_params))))) = [5]
   \<and> prop_of (doc (fst (hidePreloader (with_placeholder ''url(preview.png)''
        (run [FillImage (Str ''https://x/b.mp4''), Dispatch 5 ''loadeddata'']
           (new_Ui example_icon example_params)))))) 5 ''src'' = Str ''https://x/b.mp4''"
proof -
  have ev: "fillImage_eventName (Str ''https://x/b.mp4'') = ''loadeddata''"
    by (simp add: fillImage_eventName_def fillImage_tag_def)
  note l = loaded_instance [of "Str ''https://x/b.mp4''" example_icon example_params, unfolded ev]
  from hidePreloader_keeps_media
    [of "[FillImage (Str ''https://x/b.mp4''), Dispatch 5 ''loadeddata'']" example_icon
      example_params "[]" "''url(preview.png)''"] l
  show ?thesis
    by (simp add: Let_def run_Nil with_placeholder_frame)
qed


end
